theory Spec2Isabelle
  imports Complex_Main "HOL-Library.Sublist" "HOL-Library.Multiset" "HOL-Library.AList"
begin

section \<open>Values of the report\<close>

text \<open>
  A Python float is a binary64 number: a finite value, one of the two infinities, or NaN.
  A finite value is kept as the rational number it stands for (minus zero is zero: the two
  compare equal and nothing here prints them).
\<close>

datatype pyfloat = Fin rat | PInf | NInf | NaN

text \<open>The comparisons \<open><\<close> and \<open>==\<close> of IEEE 754: every comparison with NaN is false.\<close>

fun flt :: "pyfloat \<Rightarrow> pyfloat \<Rightarrow> bool" where
  "flt NaN _ = False"
| "flt _ NaN = False"
| "flt PInf _ = False"
| "flt _ NInf = False"
| "flt NInf _ = True"
| "flt _ PInf = True"
| "flt (Fin a) (Fin b) = (a < b)"

fun feq :: "pyfloat \<Rightarrow> pyfloat \<Rightarrow> bool" where
  "feq NaN _ = False"
| "feq _ NaN = False"
| "feq a b = (a = b)"

definition fle :: "pyfloat \<Rightarrow> pyfloat \<Rightarrow> bool" where
  "fle a b \<longleftrightarrow> flt a b \<or> feq a b"

definition isfinite :: "pyfloat \<Rightarrow> bool" where
  "isfinite x = (case x of Fin _ \<Rightarrow> True | _ \<Rightarrow> False)"

text \<open>
  A cell of the uploaded table is a text, or a number. pandas stores a cell that is empty in
  the file as the float NaN, so a missing cell is \<open>Flt NaN\<close>.
\<close>

datatype "value" = Str string | Flt pyfloat

text \<open>
  The parts of the Python runtime and of numpy that the script relies on and that are not
  text processing: \<open>strtod\<close> rounds the decimal number a string denotes to the nearest
  binary64 value (an infinity when it overflows), \<open>repr\<close> prints a finite float, and
  \<open>argsort\<close> is numpy's \<open>argsort(kind='quicksort')\<close>, which pandas' \<open>sort_values\<close>
  calls. They are parameters of the model.
\<close>

record pylib =
  strtod :: "rat \<Rightarrow> pyfloat"
  repr :: "rat \<Rightarrow> string"
  argsort :: "value list \<Rightarrow> nat list"

datatype error =
    MissingColumns "string list"  \<comment> \<open>\<open>st.error\<close> with the missing names, then \<open>st.stop()\<close>\<close>
  | CouldNotConvert string  \<comment> \<open>ValueError: could not convert string to float: '...'\<close>
  | EmptySequence  \<comment> \<open>ValueError: attempt to get argmax/argmin of an empty sequence\<close>
  | AllNA  \<comment> \<open>\<open>idxmax\<close>/\<open>idxmin\<close> of values that are all NaN: no row label\<close>
  | TypeError  \<comment> \<open>\<open>idxmax\<close>/\<open>idxmin\<close> of a column that holds text\<close>
  | KeyError string  \<comment> \<open>no column of that name\<close>

section \<open>Text processing\<close>

text \<open>
  \<open>str.replace(old, new)\<close>: one pass from the left over the non-overlapping occurrences of
  \<open>old\<close>. With an empty \<open>old\<close> Python puts \<open>new\<close> before every character and at the end.
  pandas' \<open>Series.str.replace\<close> does this on every cell; for the patterns \<open>%\<close> and \<open>ms\<close>
  its regular-expression mode finds the same matches as the literal mode.
\<close>

function replace :: "string \<Rightarrow> string \<Rightarrow> string \<Rightarrow> string" where
  "replace old new [] = (if old = [] then new else [])"
| "replace old new (c # cs) =
     (if old = [] then new @ c # replace old new cs
      else if prefix old (c # cs) then new @ replace old new (drop (length old) (c # cs))
      else c # replace old new cs)"
  by pat_completeness auto
termination
  by (relation "measure (\<lambda>(old, new, s). length s)") auto

definition is_digit :: "char \<Rightarrow> bool" where
  "is_digit c \<longleftrightarrow> c \<in> set ''0123456789''"

text \<open>
  The characters that \<open>float\<close> skips at both ends of a text: the ASCII white space and,
  of the characters above 127, those that Unicode counts as spaces (NEL and the no-break
  space among the 8-bit characters).
\<close>

definition is_space :: "char \<Rightarrow> bool" where
  "is_space c \<longleftrightarrow>
     c \<in> set [CHR 0x09, CHR 0x0A, CHR 0x0B, CHR 0x0C, CHR 0x0D, CHR '' '', CHR 0x85, CHR 0xA0]"

definition digit_val :: "char \<Rightarrow> nat" where
  "digit_val c = of_char c - 48"

definition digits_val :: "string \<Rightarrow> nat" where
  "digits_val ds = foldl (\<lambda>n c. 10 * n + digit_val c) 0 ds"

text \<open>ASCII lower case, for the case-insensitive words \<open>inf\<close>, \<open>infinity\<close> and \<open>nan\<close>.\<close>

definition lower :: "char \<Rightarrow> char" where
  "lower c = (let n = (of_char c :: nat) in if 65 \<le> n \<and> n \<le> 90 then char_of (n + 32) else c)"

definition strip :: "string \<Rightarrow> string" where
  "strip s = rev (dropWhile is_space (rev (dropWhile is_space s)))"

text \<open>
  Underscores (PEP 515) may stand between two digits and nowhere else; they are removed
  before the number is read. \<open>p\<close> is the character before the current one.
\<close>

fun underscores :: "char option \<Rightarrow> string \<Rightarrow> string option" where
  "underscores p [] = (if p = Some CHR ''_'' then None else Some [])"
| "underscores p (c # cs) =
     (if c = CHR ''_'' then
        (case p of Some d \<Rightarrow> if is_digit d then underscores (Some c) cs else None
         | None \<Rightarrow> None)
      else if p = Some CHR ''_'' \<and> \<not> is_digit c then None
      else map_option ((#) c) (underscores (Some c) cs))"

fun take_sign :: "string \<Rightarrow> bool \<times> string" where
  "take_sign (c # cs) =
     (if c = CHR ''-'' then (True, cs) else if c = CHR ''+'' then (False, cs)
      else (False, c # cs))"
| "take_sign [] = (False, [])"

text \<open>The exponent part: nothing, or \<open>e\<close>/\<open>E\<close>, a sign if any, and at least one digit.\<close>

definition exponent :: "string \<Rightarrow> int option" where
  "exponent s =
     (case s of [] \<Rightarrow> Some 0
      | c # cs \<Rightarrow>
          if c = CHR ''e'' \<or> c = CHR ''E'' then
            (let (neg, ds) = take_sign cs in
             if ds \<noteq> [] \<and> list_all is_digit ds
             then Some (if neg then - int (digits_val ds) else int (digits_val ds))
             else None)
          else None)"

definition pow10 :: "int \<Rightarrow> rat" where
  "pow10 e = (if 0 \<le> e then 10 ^ nat e else 1 / 10 ^ nat (- e))"

text \<open>
  The decimal number a string denotes: sign, digits, a point and more digits (at least
  one digit in all), exponent; the whole string must be used up.
\<close>

definition decimal :: "string \<Rightarrow> rat option" where
  "decimal s =
     (let (neg, s1) = take_sign s;
          ip = takeWhile is_digit s1;
          r1 = dropWhile is_digit s1;
          (fp, r2) = (case r1 of [] \<Rightarrow> ([], [])
                      | c # t \<Rightarrow> if c = CHR ''.''
                                 then (takeWhile is_digit t, dropWhile is_digit t)
                                 else ([], r1))
      in if ip = [] \<and> fp = [] then None
         else (case exponent r2 of None \<Rightarrow> None
               | Some e \<Rightarrow>
                   Some ((if neg then - 1 else 1) * rat_of_nat (digits_val (ip @ fp))
                         * pow10 (e - int (length fp)))))"

definition inf_or_nan :: "string \<Rightarrow> pyfloat option" where
  "inf_or_nan s =
     (let (neg, w) = take_sign s; w = map lower w in
      if w = ''inf'' \<or> w = ''infinity'' then Some (if neg then NInf else PInf)
      else if w = ''nan'' then Some NaN
      else None)"

text \<open>
  Python's \<open>float(s)\<close> for a text \<open>s\<close>: \<open>None\<close> is the ValueError. (Characters are
  8-bit here; Python also reads the decimal digits and spaces of scripts beyond them.)
\<close>

definition py_float :: "pylib \<Rightarrow> string \<Rightarrow> pyfloat option" where
  "py_float L s =
     (case underscores None (strip s) of None \<Rightarrow> None
      | Some t \<Rightarrow>
          (case decimal t of Some q \<Rightarrow> Some (strtod L q)
           | None \<Rightarrow> inf_or_nan t))"

section \<open>Tables\<close>

text \<open>
  A row holds its cells by column name; a cell that the row does not hold is missing, which
  pandas reads as NaN. A DataFrame is its column names and its rows, in file order. pandas
  labels the rows of an uploaded file by position, \<open>idxmax\<close>/\<open>idxmin\<close> return such a
  label and \<open>.loc\<close> reads the row back, so a row is found by its position in the frame.
\<close>

type_synonym row = "(string \<times> value) list"

record dataframe =
  columns :: "string list"
  rows :: "row list"

definition cell :: "row \<Rightarrow> string \<Rightarrow> value" where
  "cell r c = (case map_of r c of Some v \<Rightarrow> v | None \<Rightarrow> Flt NaN)"

text \<open>\<open>df[c]\<close>: the column as a sequence of cells, or KeyError.\<close>

definition col :: "dataframe \<Rightarrow> string \<Rightarrow> error + value list" where
  "col df c =
     (if c \<in> set (columns df) then Inr (map (\<lambda>r. cell r c) (rows df)) else Inl (KeyError c))"

text \<open>
  \<open>df[c] = values\<close>, the values being one per row: an existing column of that name is
  overwritten, a new one is added at the end.
\<close>

definition set_cell :: "string \<Rightarrow> row \<times> value \<Rightarrow> row" where
  "set_cell c rv = AList.update c (snd rv) (fst rv)"

definition set_col :: "dataframe \<Rightarrow> string \<Rightarrow> value list \<Rightarrow> dataframe" where
  "set_col df c vs =
     \<lparr>columns = (if c \<in> set (columns df) then columns df else columns df @ [c]),
      rows = map (set_cell c) (zip (rows df) vs)\<rparr>"

section \<open>Required columns\<close>

definition required_columns :: "string list" where
  "required_columns =
     [''Core Symbol'', ''Maker Stream Name'', ''% Filled Volume'', ''Avg. Fill Latency'',
      ''Total Filled Volume'']"

definition missing_columns :: "dataframe \<Rightarrow> string list" where
  "missing_columns df = filter (\<lambda>c. c \<notin> set (columns df)) required_columns"

section \<open>Data cleaning and numeric conversion\<close>

text \<open>\<open>.astype(str)\<close> on one cell: a text stays, a float is printed.\<close>

definition astype_str :: "pylib \<Rightarrow> value \<Rightarrow> string" where
  "astype_str L v =
     (case v of Str s \<Rightarrow> s
      | Flt x \<Rightarrow> (case x of Fin q \<Rightarrow> repr L q | PInf \<Rightarrow> ''inf'' | NInf \<Rightarrow> ''-inf''
                  | NaN \<Rightarrow> ''nan''))"

text \<open>\<open>.astype(float)\<close> on a column of texts: the first text that is no number raises.\<close>

fun astype_float :: "pylib \<Rightarrow> string list \<Rightarrow> error + pyfloat list" where
  "astype_float L [] = Inr []"
| "astype_float L (s # ss) =
     (case py_float L s of None \<Rightarrow> Inl (CouldNotConvert s)
      | Some x \<Rightarrow> (case astype_float L ss of Inl e \<Rightarrow> Inl e | Inr xs \<Rightarrow> Inr (x # xs)))"

definition clean_pct :: "string \<Rightarrow> string" where
  "clean_pct s = replace ''%'' '''' s"

definition clean_latency :: "string \<Rightarrow> string" where
  "clean_latency s = replace ''ms'' '''' s"

definition clean_volume :: "string \<Rightarrow> string" where
  "clean_volume s = replace '','' '''' (replace ''$'' '''' s)"

text \<open>\<open>df[dst] = df[src].astype(str).str.replace(...).astype(float)\<close>\<close>

definition to_numeric ::
  "pylib \<Rightarrow> (string \<Rightarrow> string) \<Rightarrow> string \<Rightarrow> string \<Rightarrow> dataframe \<Rightarrow> error + dataframe" where
  "to_numeric L clean src dst df =
     (case col df src of Inl e \<Rightarrow> Inl e
      | Inr vs \<Rightarrow>
          (case astype_float L (map (\<lambda>v. clean (astype_str L v)) vs) of Inl e \<Rightarrow> Inl e
           | Inr fs \<Rightarrow> Inr (set_col df dst (map Flt fs))))"

definition normalize :: "pylib \<Rightarrow> dataframe \<Rightarrow> error + dataframe" where
  "normalize L df =
     (case to_numeric L clean_pct ''% Filled Volume'' ''Filled_Vol_Pct'' df of Inl e \<Rightarrow> Inl e
      | Inr df1 \<Rightarrow>
     (case to_numeric L clean_latency ''Avg. Fill Latency'' ''Avg_Latency_ms'' df1 of
        Inl e \<Rightarrow> Inl e
      | Inr df2 \<Rightarrow> to_numeric L clean_volume ''Total Filled Volume'' ''Total_Filled_Vol'' df2))"

section \<open>Filters\<close>

text \<open>\<open>==\<close> between two cells: texts by their characters, floats as IEEE does.\<close>

fun veq :: "value \<Rightarrow> value \<Rightarrow> bool" where
  "veq (Str a) (Str b) = (a = b)"
| "veq (Flt a) (Flt b) = feq a b"
| "veq _ _ = False"

fun vlt :: "value \<Rightarrow> value \<Rightarrow> bool" where
  "vlt (Flt a) (Flt b) = flt a b"
| "vlt _ _ = False"

text \<open>\<open>sym_df = df[df["Core Symbol"] == selected_symbol]\<close>\<close>

definition select_symbol :: "dataframe \<Rightarrow> value \<Rightarrow> error + dataframe" where
  "select_symbol df selected_symbol =
     (case col df ''Core Symbol'' of Inl e \<Rightarrow> Inl e
      | Inr _ \<Rightarrow>
          Inr (df\<lparr>rows := filter (\<lambda>r. veq (cell r ''Core Symbol'') selected_symbol) (rows df)\<rparr>))"

definition metric_labels :: "string list" where
  "metric_labels = [''% Filled Volume'', ''Avg Fill Latency (ms)'', ''Total Filled Volume'']"

section \<open>Best and worst\<close>

definition isna :: "value \<Rightarrow> bool" where
  "isna v \<longleftrightarrow> v = Flt NaN"

text \<open>The floats of a numeric column; a column that holds a text is no numeric column.\<close>

fun floats :: "value list \<Rightarrow> pyfloat list option" where
  "floats [] = Some []"
| "floats (Str s # vs) = None"
| "floats (Flt x # vs) = map_option ((#) x) (floats vs)"

text \<open>
  numpy's \<open>argmax\<close> and \<open>argmin\<close> on values without NaN: the position of the first
  occurrence of the greatest, or least, value. Both are one scan from the left that keeps
  the best value so far (\<open>b\<close>) and its position (\<open>bi\<close>) and replaces them when the next
  value, at position \<open>i\<close>, is strictly better.
\<close>

fun arg_scan ::
  "(pyfloat \<Rightarrow> pyfloat \<Rightarrow> bool) \<Rightarrow> pyfloat \<Rightarrow> nat \<Rightarrow> nat \<Rightarrow> pyfloat list \<Rightarrow> nat" where
  "arg_scan better b bi i [] = bi"
| "arg_scan better b bi i (x # xs) =
     (if better x b then arg_scan better x i (Suc i) xs
      else arg_scan better b bi (Suc i) xs)"

definition argmax_scan :: "pyfloat \<Rightarrow> nat \<Rightarrow> nat \<Rightarrow> pyfloat list \<Rightarrow> nat" where
  "argmax_scan = arg_scan (\<lambda>x b. flt b x)"

definition argmin_scan :: "pyfloat \<Rightarrow> nat \<Rightarrow> nat \<Rightarrow> pyfloat list \<Rightarrow> nat" where
  "argmin_scan = arg_scan (\<lambda>x b. flt x b)"

definition fillna :: "pyfloat \<Rightarrow> pyfloat \<Rightarrow> pyfloat" where
  "fillna d x = (if x = NaN then d else x)"

text \<open>
  \<open>Series.idxmax()\<close> with its default \<open>skipna=True\<close>: an empty column raises; NaN counts
  as minus infinity, and a column of NaN only has no answer; else the first position of the
  greatest value. \<open>idxmin\<close> is the same with plus infinity and the least value.
\<close>

definition idxmax :: "value list \<Rightarrow> error + nat" where
  "idxmax vs =
     (case floats vs of None \<Rightarrow> Inl TypeError
      | Some [] \<Rightarrow> Inl EmptySequence
      | Some (x # xs) \<Rightarrow>
          if list_all (\<lambda>y. y = NaN) (x # xs) then Inl AllNA
          else Inr (argmax_scan (fillna NInf x) 0 1 (map (fillna NInf) xs)))"

definition idxmin :: "value list \<Rightarrow> error + nat" where
  "idxmin vs =
     (case floats vs of None \<Rightarrow> Inl TypeError
      | Some [] \<Rightarrow> Inl EmptySequence
      | Some (x # xs) \<Rightarrow>
          if list_all (\<lambda>y. y = NaN) (x # xs) then Inl AllNA
          else Inr (argmin_scan (fillna PInf x) 0 1 (map (fillna PInf) xs)))"

text \<open>\<open>sym_df.loc[sym_df[c].idxmax()]\<close>, and the same with \<open>idxmin\<close>\<close>

definition loc_idx ::
  "dataframe \<Rightarrow> string \<Rightarrow> (value list \<Rightarrow> error + nat) \<Rightarrow> error + row" where
  "loc_idx sym_df c idx =
     (case col sym_df c of Inl e \<Rightarrow> Inl e
      | Inr vs \<Rightarrow> (case idx vs of Inl e \<Rightarrow> Inl e | Inr i \<Rightarrow> Inr (rows sym_df ! i)))"

record extrema =
  best_row :: row
  worst_row :: row
  metric_col :: string
  higher_is_better :: bool

definition best_worst :: "dataframe \<Rightarrow> string \<Rightarrow> error + extrema" where
  "best_worst sym_df selected_metric =
     (if selected_metric = ''% Filled Volume'' then
        (case loc_idx sym_df ''Filled_Vol_Pct'' idxmax of Inl e \<Rightarrow> Inl e
         | Inr b \<Rightarrow>
        (case loc_idx sym_df ''Filled_Vol_Pct'' idxmin of Inl e \<Rightarrow> Inl e
         | Inr w \<Rightarrow>
            Inr \<lparr>best_row = b, worst_row = w, metric_col = ''Filled_Vol_Pct'',
                 higher_is_better = True\<rparr>))
      else if selected_metric = ''Avg Fill Latency (ms)'' then
        (case loc_idx sym_df ''Avg_Latency_ms'' idxmin of Inl e \<Rightarrow> Inl e
         | Inr b \<Rightarrow>
        (case loc_idx sym_df ''Avg_Latency_ms'' idxmax of Inl e \<Rightarrow> Inl e
         | Inr w \<Rightarrow>
            Inr \<lparr>best_row = b, worst_row = w, metric_col = ''Avg_Latency_ms'',
                 higher_is_better = False\<rparr>))
      else
        (case loc_idx sym_df ''Total_Filled_Vol'' idxmax of Inl e \<Rightarrow> Inl e
         | Inr b \<Rightarrow>
        (case loc_idx sym_df ''Total_Filled_Vol'' idxmin of Inl e \<Rightarrow> Inl e
         | Inr w \<Rightarrow>
            Inr \<lparr>best_row = b, worst_row = w, metric_col = ''Total_Filled_Vol'',
                 higher_is_better = True\<rparr>)))"

section \<open>Ranking table\<close>

text \<open>\<open>df[[c1, ..., cn]]\<close>: the named columns in that order, or KeyError.\<close>

definition project :: "dataframe \<Rightarrow> string list \<Rightarrow> error + dataframe" where
  "project df cs =
     (case filter (\<lambda>c. c \<notin> set (columns df)) cs of
        [] \<Rightarrow> Inr \<lparr>columns = cs, rows = map (\<lambda>r. map (\<lambda>c. (c, cell r c)) cs) (rows df)\<rparr>
      | c # _ \<Rightarrow> Inl (KeyError c))"

definition rename_label :: "(string \<times> string) list \<Rightarrow> string \<Rightarrow> string" where
  "rename_label m c = (case map_of m c of Some c' \<Rightarrow> c' | None \<Rightarrow> c)"

text \<open>\<open>df.rename(columns=m)\<close>\<close>

definition rename :: "(string \<times> string) list \<Rightarrow> dataframe \<Rightarrow> dataframe" where
  "rename m df =
     \<lparr>columns = map (rename_label m) (columns df),
      rows = map (map (\<lambda>cv. (rename_label m (fst cv), snd cv))) (rows df)\<rparr>"

text \<open>\<open>list.index\<close>, called on a member only.\<close>

fun index_of :: "'a list \<Rightarrow> 'a \<Rightarrow> nat" where
  "index_of [] x = 0"
| "index_of (y # ys) x = (if y = x then 0 else Suc (index_of ys x))"

text \<open>
  pandas' \<open>nargsort\<close> with \<open>na_position='last'\<close>, as \<open>sort_values\<close> calls it for one
  key column: the positions of the keys that are not NaN, ordered by \<open>argsort\<close> (for a
  descending order the keys are reversed before and the result after), then the positions of
  the NaN keys.
\<close>

definition nargsort :: "pylib \<Rightarrow> value list \<Rightarrow> bool \<Rightarrow> nat list" where
  "nargsort L items ascending =
     (let idx = [0..<length items];
          non_nan_idx = filter (\<lambda>i. \<not> isna (items ! i)) idx;
          nan_idx = filter (\<lambda>i. isna (items ! i)) idx;
          non_nan_idx = (if ascending then non_nan_idx else rev non_nan_idx);
          non_nans = map ((!) items) non_nan_idx;
          indexer = map ((!) non_nan_idx) (argsort L non_nans);
          indexer = (if ascending then indexer else rev indexer)
      in indexer @ nan_idx)"

text \<open>\<open>df.sort_values(by=by, ascending=ascending)\<close>\<close>

definition sort_values :: "pylib \<Rightarrow> dataframe \<Rightarrow> string \<Rightarrow> bool \<Rightarrow> error + dataframe" where
  "sort_values L df by ascending =
     (case col df by of Inl e \<Rightarrow> Inl e
      | Inr k \<Rightarrow> Inr (df\<lparr>rows := map ((!) (rows df)) (nargsort L k ascending)\<rparr>))"

definition rank_source :: "string list" where
  "rank_source = [''Maker Stream Name'', ''Filled_Vol_Pct'', ''Avg_Latency_ms'', ''Total_Filled_Vol'']"

definition rank_names :: "(string \<times> string) list" where
  "rank_names =
     [(''Maker Stream Name'', ''LP Name''),
      (''Filled_Vol_Pct'', ''% Filled Volume''),
      (''Avg_Latency_ms'', ''Avg Fill Latency (ms)''),
      (''Total_Filled_Vol'', ''Total Filled Volume'')]"

text \<open>
  The key that the script hands to \<open>sort_values\<close>; \<open>mcol\<close> and \<open>hib\<close> are the script's
  \<open>metric_col\<close> and \<open>higher_is_better\<close>.
\<close>

definition sort_key :: "string list \<Rightarrow> string \<Rightarrow> string \<Rightarrow> string" where
  "sort_key cols selected_metric mcol =
     (if selected_metric \<in> set cols then cols ! index_of cols selected_metric else mcol)"

definition ranking :: "pylib \<Rightarrow> dataframe \<Rightarrow> string \<Rightarrow> string \<Rightarrow> bool \<Rightarrow> error + dataframe" where
  "ranking L sym_df selected_metric mcol hib =
     (case project sym_df rank_source of Inl e \<Rightarrow> Inl e
      | Inr p \<Rightarrow>
          (let ranked = rename rank_names p in
           sort_values L ranked (sort_key (columns ranked) selected_metric mcol) (\<not> hib)))"

section \<open>The script\<close>

record result = extrema +
  rank_df :: dataframe
  table :: dataframe

text \<open>
  The script after the check of the required columns: conversion, filter, best and worst,
  ranking table. \<open>table\<close> is \<open>df\<close> as it stands when the script ends.
\<close>

definition analyse :: "pylib \<Rightarrow> dataframe \<Rightarrow> value \<Rightarrow> string \<Rightarrow> error + result" where
  "analyse L df selected_symbol selected_metric =
     (case normalize L df of Inl e \<Rightarrow> Inl e
      | Inr df \<Rightarrow>
     (case select_symbol df selected_symbol of Inl e \<Rightarrow> Inl e
      | Inr sym_df \<Rightarrow>
     (case best_worst sym_df selected_metric of Inl e \<Rightarrow> Inl e
      | Inr x \<Rightarrow>
     (case ranking L sym_df selected_metric (metric_col x) (higher_is_better x) of
        Inl e \<Rightarrow> Inl e
      | Inr r \<Rightarrow>
          Inr \<lparr>best_row = best_row x, worst_row = worst_row x, metric_col = metric_col x,
               higher_is_better = higher_is_better x, rank_df = r, table = df\<rparr>))))"

text \<open>One run of the script on an uploaded table \<open>df\<close> with the two choices of the user.\<close>

definition dashboard :: "pylib \<Rightarrow> dataframe \<Rightarrow> value \<Rightarrow> string \<Rightarrow> error + result" where
  "dashboard L df selected_symbol selected_metric =
     (if missing_columns df \<noteq> [] then Inl (MissingColumns (missing_columns df))
      else analyse L df selected_symbol selected_metric)"

text \<open>The symbol-scoped subset that a run ranks: the table validated, converted and filtered.\<close>

definition scoped :: "pylib \<Rightarrow> dataframe \<Rightarrow> value \<Rightarrow> error + dataframe" where
  "scoped L df selected_symbol =
     (if missing_columns df \<noteq> [] then Inl (MissingColumns (missing_columns df))
      else (case normalize L df of Inl e \<Rightarrow> Inl e
            | Inr df \<Rightarrow> select_symbol df selected_symbol))"

section \<open>What the specification names\<close>

text \<open>
  The Metric Resolver of the specification: the closed table from a metric label to its
  canonical column and its direction (\<open>True\<close>: higher is better).
\<close>

definition resolve :: "string \<Rightarrow> (string \<times> bool) option" where
  "resolve label =
     map_of [(''% Filled Volume'', (''Filled_Vol_Pct'', True)),
             (''Avg Fill Latency (ms)'', (''Avg_Latency_ms'', False)),
             (''Total Filled Volume'', (''Total_Filled_Vol'', True))] label"

text \<open>
  The ranking as the specification wants it built: the key comes from the resolver, the
  subset is sorted by that canonical column, then projected and renamed.
\<close>

definition ranking_by_resolver :: "pylib \<Rightarrow> dataframe \<Rightarrow> string \<Rightarrow> error + dataframe" where
  "ranking_by_resolver L sym_df label =
     (case resolve label of None \<Rightarrow> Inl (KeyError label)
      | Some (c, hib) \<Rightarrow>
          (case sort_values L sym_df c (\<not> hib) of Inl e \<Rightarrow> Inl e
           | Inr s \<Rightarrow> (case project s rank_source of Inl e \<Rightarrow> Inl e
                       | Inr p \<Rightarrow> Inr (rename rank_names p))))"

text \<open>A row of the subset as the ranking table presents it.\<close>

definition present :: "row \<Rightarrow> row" where
  "present r =
     [(''LP Name'', cell r ''Maker Stream Name''),
      (''% Filled Volume'', cell r ''Filled_Vol_Pct''),
      (''Avg Fill Latency (ms)'', cell r ''Avg_Latency_ms''),
      (''Total Filled Volume'', cell r ''Total_Filled_Vol'')]"

text \<open>\<open>a\<close> is strictly more favourable than \<open>b\<close> in the given direction.\<close>

definition more_favourable :: "bool \<Rightarrow> value \<Rightarrow> value \<Rightarrow> bool" where
  "more_favourable hib a b = (if hib then vlt b a else vlt a b)"

text \<open>"Strip all \<open>ms\<close> substrings", read from the left.\<close>

fun strip_ms :: "string \<Rightarrow> string" where
  "strip_ms [] = []"
| "strip_ms [c] = [c]"
| "strip_ms (c # d # s) =
     (if c = CHR ''m'' \<and> d = CHR ''s'' then strip_ms s else c # strip_ms (d # s))"

text \<open>
  What the model asks of numpy's \<open>argsort\<close>: it returns a permutation of the positions,
  and on keys that are floats other than NaN the keys are in ascending order along it.
\<close>

definition sortable :: "value \<Rightarrow> bool" where
  "sortable v = (case v of Flt x \<Rightarrow> x \<noteq> NaN | Str _ \<Rightarrow> False)"

definition argsort_ok :: "(value list \<Rightarrow> nat list) \<Rightarrow> bool" where
  "argsort_ok f \<longleftrightarrow>
     (\<forall>ks. mset (f ks) = mset [0..<length ks] \<and>
           (list_all sortable ks \<longrightarrow> sorted_wrt (\<lambda>i j. \<not> vlt (ks ! j) (ks ! i)) (f ks)))"

section \<open>A runtime for evaluating concrete tables\<close>

text \<open>
  Where a concrete table is run, the runtime is this one: every decimal is a float
  (\<open>strtod\<close> rounds nothing), a float prints with six decimals, and \<open>argsort\<close> is a stable
  insertion sort on float keys.
\<close>

function nat_digits :: "nat \<Rightarrow> string" where
  "nat_digits n =
     (if n < 10 then [char_of (48 + n)] else nat_digits (n div 10) @ [char_of (48 + n mod 10)])"
  by pat_completeness auto
termination
  by (relation "measure id") auto

definition fixed_repr :: "rat \<Rightarrow> string" where
  "fixed_repr q =
     (let n = nat \<lfloor>\<bar>q\<bar> * 1000000\<rfloor> in
      (if q < 0 then ''-'' else '''') @ nat_digits (n div 1000000) @ ''.''
        @ tl (nat_digits (1000000 + n mod 1000000)))"

fun insert_idx :: "value list \<Rightarrow> nat \<Rightarrow> nat list \<Rightarrow> nat list" where
  "insert_idx ks i [] = [i]"
| "insert_idx ks i (j # js) =
     (if vlt (ks ! i) (ks ! j) then i # j # js else j # insert_idx ks i js)"

fun argsort_upto :: "value list \<Rightarrow> nat \<Rightarrow> nat list" where
  "argsort_upto ks 0 = []"
| "argsort_upto ks (Suc n) = insert_idx ks n (argsort_upto ks n)"

definition insertion_argsort :: "value list \<Rightarrow> nat list" where
  "insertion_argsort ks = argsort_upto ks (length ks)"

definition exact_lib :: pylib where
  "exact_lib = \<lparr>strtod = Fin, repr = fixed_repr, argsort = insertion_argsort\<rparr>"

section \<open>Concrete tables\<close>

text \<open>A row of a report that has the five required columns and no other.\<close>

definition report_row :: "value \<Rightarrow> value \<Rightarrow> value \<Rightarrow> value \<Rightarrow> value \<Rightarrow> row" where
  "report_row symbol lp pct lat vol =
     [(''Core Symbol'', symbol), (''Maker Stream Name'', lp), (''% Filled Volume'', pct),
      (''Avg. Fill Latency'', lat), (''Total Filled Volume'', vol)]"

definition report :: "row list \<Rightarrow> dataframe" where
  "report rs = \<lparr>columns = required_columns, rows = rs\<rparr>"

text \<open>The two-row report of the specification's scenarios.\<close>

definition eurusd :: dataframe where
  "eurusd = report
     [report_row (Str ''EURUSD'') (Str ''LP_A'') (Str ''87.3%'') (Str ''120ms'') (Str ''$10,000.00''),
      report_row (Str ''EURUSD'') (Str ''LP_B'') (Str ''92.1%'') (Str ''95ms'') (Str ''$8,500.50'')]"

text \<open>
  A report whose latency column is mislabelled twice over, by case and by a leading space,
  and whose one row holds a percentage that is no number.
\<close>

definition mislabelled :: dataframe where
  "mislabelled =
     \<lparr>columns = [''Core Symbol'', ''Maker Stream Name'', ''% Filled Volume'',
                 ''avg. fill latency'', '' Avg. Fill Latency'', ''Total Filled Volume''],
      rows = [[(''Core Symbol'', Str ''EURUSD''), (''Maker Stream Name'', Str ''LP_A''),
               (''% Filled Volume'', Str ''abc%''), (''avg. fill latency'', Str ''120ms''),
               ('' Avg. Fill Latency'', Str ''120ms''),
               (''Total Filled Volume'', Str ''$10,000.00'')]]\<rparr>"

text \<open>
  A report with an empty percentage cell in its first row and the text \<open>inf%\<close> in its second.
\<close>

definition gaps :: dataframe where
  "gaps = report
     [report_row (Str ''EURUSD'') (Str ''LP_A'') (Flt NaN) (Str ''120ms'') (Str ''$10,000.00''),
      report_row (Str ''EURUSD'') (Str ''LP_B'') (Str ''inf%'') (Str ''95ms'') (Str ''$8,500.50'')]"

text \<open>Reports with one cell that is no number, in the percentage and in the latency column.\<close>

definition abc_pct :: dataframe where
  "abc_pct = report
     [report_row (Str ''EURUSD'') (Str ''LP_A'') (Str ''abc%'') (Str ''120ms'') (Str ''$10,000.00'')]"

definition abc_latency :: dataframe where
  "abc_latency = report
     [report_row (Str ''EURUSD'') (Str ''LP_A'') (Str ''87.3%'') (Str ''abcms'') (Str ''$10,000.00'')]"

text \<open>A report that already has a column of the name \<open>Filled_Vol_Pct\<close>.\<close>

definition shadowed :: dataframe where
  "shadowed =
     \<lparr>columns = required_columns @ [''Filled_Vol_Pct''],
      rows = [report_row (Str ''EURUSD'') (Str ''LP_A'') (Str ''87.3%'') (Str ''120ms'')
                (Str ''$10,000.00'') @ [(''Filled_Vol_Pct'', Str ''keep'')]]\<rparr>"



text \<open>A report of one row that holds the three display formats of the specification.\<close>

definition formatted :: dataframe where
  "formatted = report
     [report_row (Str ''EURUSD'') (Str ''LP_A'') (Str ''87.3%'') (Str ''142.5ms'')
        (Str ''$12,345.67'')]"

text \<open>
  Two reports of the same two rows, which are equal in all three metrics, in the one and in
  the other order.
\<close>

definition tied :: dataframe where
  "tied = report
     [report_row (Str ''EURUSD'') (Str ''LP_A'') (Str ''90%'') (Str ''100ms'') (Str ''$1,000.00''),
      report_row (Str ''EURUSD'') (Str ''LP_B'') (Str ''90%'') (Str ''100ms'') (Str ''$1,000.00'')]"

definition tied_swapped :: dataframe where
  "tied_swapped = report
     [report_row (Str ''EURUSD'') (Str ''LP_B'') (Str ''90%'') (Str ''100ms'') (Str ''$1,000.00''),
      report_row (Str ''EURUSD'') (Str ''LP_A'') (Str ''90%'') (Str ''100ms'') (Str ''$1,000.00'')]"

section \<open>Facts about cleaning and conversion\<close>

lemma replace_char: "replace [c] [] s = filter (\<lambda>x. x \<noteq> c) s"
  by (induction s) auto

lemma replace_ms: "replace ''ms'' '''' s = strip_ms s"
proof (induction s rule: strip_ms.induct)
  case 1 show ?case by simp
next
  case (2 c) show ?case by simp
next
  case (3 c d s) then show ?case by simp
qed

lemma cell_update: "cell (AList.update c v r) c' = (if c' = c then v else cell r c')"
  by (simp add: cell_def update_conv')

lemma astype_float_Inr:
  "astype_float L ss = Inr xs \<Longrightarrow> map (py_float L) ss = map Some xs"
  by (induction ss arbitrary: xs) (auto split: option.splits sum.splits)

lemma astype_float_Inl:
  "astype_float L ss = Inl e \<Longrightarrow> \<exists>s\<in>set ss. e = CouldNotConvert s \<and> py_float L s = None"
  by (induction ss) (auto split: option.splits sum.splits)

lemma astype_float_fails:
  "s \<in> set ss \<Longrightarrow> py_float L s = None \<Longrightarrow> \<exists>e. astype_float L ss = Inl e"
  by (induction ss) (auto split: option.splits sum.splits)

lemma to_numeric_Inr:
  assumes "to_numeric L clean src dst df = Inr df'"
  shows "src \<in> set (columns df)"
    and "set (columns df') = insert dst (set (columns df))"
    and "length (rows df') = length (rows df)"
    and "i < length (rows df) \<Longrightarrow>
           py_float L (clean (astype_str L (cell (rows df ! i) src))) = Some x
             \<Longrightarrow> cell (rows df' ! i) dst = Flt x"
    and "i < length (rows df) \<Longrightarrow> \<exists>x. cell (rows df' ! i) dst = Flt x"
    and "i < length (rows df) \<Longrightarrow> c \<noteq> dst \<Longrightarrow> cell (rows df' ! i) c = cell (rows df ! i) c"
proof -
  from assms obtain fs where
    src: "src \<in> set (columns df)" and
    fs: "astype_float L (map (\<lambda>v. clean (astype_str L v)) (map (\<lambda>r. cell r src) (rows df))) = Inr fs"
    and df': "df' = set_col df dst (map Flt fs)"
    by (auto simp: to_numeric_def col_def split: if_splits sum.splits)
  from astype_float_Inr[OF fs]
  have m: "map (\<lambda>r. py_float L (clean (astype_str L (cell r src)))) (rows df) = map Some fs"
    by (simp add: comp_def)
  then have len: "length fs = length (rows df)"
    by (metis length_map)
  show "src \<in> set (columns df)" by (rule src)
  show "set (columns df') = insert dst (set (columns df))"
    by (auto simp: df' set_col_def)
  show "length (rows df') = length (rows df)"
    by (simp add: df' set_col_def len)
  have at: "py_float L (clean (astype_str L (cell (rows df ! i) src))) = Some (fs ! i)"
    if "i < length (rows df)" for i
    using that m len by (metis nth_map)
  have row: "rows df' ! i = AList.update dst (Flt (fs ! i)) (rows df ! i)"
    if "i < length (rows df)" for i
    using that len by (simp add: df' set_col_def set_cell_def)
  show "cell (rows df' ! i) dst = Flt x"
    if "i < length (rows df)" "py_float L (clean (astype_str L (cell (rows df ! i) src))) = Some x"
    using that at[of i] row[of i] by (simp add: cell_update)
  show "\<exists>x. cell (rows df' ! i) dst = Flt x" if "i < length (rows df)"
    using that row[of i] by (simp add: cell_update)
  show "cell (rows df' ! i) c = cell (rows df ! i) c" if "i < length (rows df)" "c \<noteq> dst"
    using that row[of i] by (simp add: cell_update)
qed


lemma to_numeric_Inl:
  assumes "to_numeric L clean src dst df = Inl e"
  shows "e = KeyError src \<and> src \<notin> set (columns df) \<or>
         (\<exists>r\<in>set (rows df). e = CouldNotConvert (clean (astype_str L (cell r src))) \<and>
             py_float L (clean (astype_str L (cell r src))) = None)"
proof (cases "src \<in> set (columns df)")
  case False
  with assms show ?thesis by (simp add: to_numeric_def col_def)
next
  case True
  with assms have "astype_float L (map (\<lambda>v. clean (astype_str L v)) (map (\<lambda>r. cell r src) (rows df))) = Inl e"
    by (auto simp: to_numeric_def col_def split: sum.splits)
  from astype_float_Inl[OF this] show ?thesis by auto
qed

lemma to_numeric_fails:
  assumes "r \<in> set (rows df)" and "py_float L (clean (astype_str L (cell r src))) = None"
  shows "\<exists>e. to_numeric L clean src dst df = Inl e"
proof (cases "src \<in> set (columns df)")
  case False
  then show ?thesis by (simp add: to_numeric_def col_def)
next
  case True
  have "clean (astype_str L (cell r src)) \<in> set (map (\<lambda>v. clean (astype_str L v)) (map (\<lambda>r. cell r src) (rows df)))"
    using assms(1) by auto
  from astype_float_fails[OF this assms(2)] True show ?thesis
    by (auto simp: to_numeric_def col_def)
qed

lemma normalize_steps:
  assumes "normalize L df = Inr ndf"
  obtains df1 df2 where
    "to_numeric L clean_pct ''% Filled Volume'' ''Filled_Vol_Pct'' df = Inr df1"
    "to_numeric L clean_latency ''Avg. Fill Latency'' ''Avg_Latency_ms'' df1 = Inr df2"
    "to_numeric L clean_volume ''Total Filled Volume'' ''Total_Filled_Vol'' df2 = Inr ndf"
  using assms by (auto simp: normalize_def split: sum.splits)

lemma normalize_length:
  assumes "normalize L df = Inr ndf"
  shows "length (rows ndf) = length (rows df)"
proof -
  from assms obtain df1 df2 where
    1: "to_numeric L clean_pct ''% Filled Volume'' ''Filled_Vol_Pct'' df = Inr df1" and
    2: "to_numeric L clean_latency ''Avg. Fill Latency'' ''Avg_Latency_ms'' df1 = Inr df2" and
    3: "to_numeric L clean_volume ''Total Filled Volume'' ''Total_Filled_Vol'' df2 = Inr ndf"
    by (rule normalize_steps)
  show ?thesis
    using to_numeric_Inr(3)[OF 1] to_numeric_Inr(3)[OF 2] to_numeric_Inr(3)[OF 3] by simp
qed

lemma normalize_columns:
  assumes "normalize L df = Inr ndf"
  shows "set (columns ndf) =
           set (columns df) \<union> {''Filled_Vol_Pct'', ''Avg_Latency_ms'', ''Total_Filled_Vol''}"
proof -
  from assms obtain df1 df2 where
    1: "to_numeric L clean_pct ''% Filled Volume'' ''Filled_Vol_Pct'' df = Inr df1" and
    2: "to_numeric L clean_latency ''Avg. Fill Latency'' ''Avg_Latency_ms'' df1 = Inr df2" and
    3: "to_numeric L clean_volume ''Total Filled Volume'' ''Total_Filled_Vol'' df2 = Inr ndf"
    by (rule normalize_steps)
  show ?thesis
    using to_numeric_Inr(2)[OF 1] to_numeric_Inr(2)[OF 2] to_numeric_Inr(2)[OF 3] by auto
qed

lemma normalize_frame:
  assumes "normalize L df = Inr ndf" and "i < length (rows df)"
    and "c \<noteq> ''Filled_Vol_Pct''" and "c \<noteq> ''Avg_Latency_ms''" and "c \<noteq> ''Total_Filled_Vol''"
  shows "cell (rows ndf ! i) c = cell (rows df ! i) c"
proof -
  from assms(1) obtain df1 df2 where
    1: "to_numeric L clean_pct ''% Filled Volume'' ''Filled_Vol_Pct'' df = Inr df1" and
    2: "to_numeric L clean_latency ''Avg. Fill Latency'' ''Avg_Latency_ms'' df1 = Inr df2" and
    3: "to_numeric L clean_volume ''Total Filled Volume'' ''Total_Filled_Vol'' df2 = Inr ndf"
    by (rule normalize_steps)
  have l1: "i < length (rows df1)" using to_numeric_Inr(3)[OF 1] assms(2) by simp
  have l2: "i < length (rows df2)" using to_numeric_Inr(3)[OF 2] l1 by simp
  show ?thesis
    using to_numeric_Inr(6)[OF 1 assms(2) assms(3)] to_numeric_Inr(6)[OF 2 l1 assms(4)]
      to_numeric_Inr(6)[OF 3 l2 assms(5)] by simp
qed

lemma normalize_values:
  assumes "normalize L df = Inr ndf" and "i < length (rows df)"
  shows "\<exists>x. py_float L (clean_pct (astype_str L (cell (rows df ! i) ''% Filled Volume''))) = Some x
               \<and> cell (rows ndf ! i) ''Filled_Vol_Pct'' = Flt x"
    and "\<exists>x. py_float L (clean_latency (astype_str L (cell (rows df ! i) ''Avg. Fill Latency''))) = Some x
               \<and> cell (rows ndf ! i) ''Avg_Latency_ms'' = Flt x"
    and "\<exists>x. py_float L (clean_volume (astype_str L (cell (rows df ! i) ''Total Filled Volume''))) = Some x
               \<and> cell (rows ndf ! i) ''Total_Filled_Vol'' = Flt x"
proof -
  from assms(1) obtain df1 df2 where
    1: "to_numeric L clean_pct ''% Filled Volume'' ''Filled_Vol_Pct'' df = Inr df1" and
    2: "to_numeric L clean_latency ''Avg. Fill Latency'' ''Avg_Latency_ms'' df1 = Inr df2" and
    3: "to_numeric L clean_volume ''Total Filled Volume'' ''Total_Filled_Vol'' df2 = Inr ndf"
    by (rule normalize_steps)
  have l1: "i < length (rows df1)" using to_numeric_Inr(3)[OF 1] assms(2) by simp
  have l2: "i < length (rows df2)" using to_numeric_Inr(3)[OF 2] l1 by simp
  have src2: "cell (rows df1 ! i) ''Avg. Fill Latency'' = cell (rows df ! i) ''Avg. Fill Latency''"
    using to_numeric_Inr(6)[OF 1 assms(2), of "''Avg. Fill Latency''"] by simp
  have src3: "cell (rows df2 ! i) ''Total Filled Volume'' = cell (rows df ! i) ''Total Filled Volume''"
    using to_numeric_Inr(6)[OF 1 assms(2), of "''Total Filled Volume''"]
      to_numeric_Inr(6)[OF 2 l1, of "''Total Filled Volume''"] by simp
  obtain x1 where x1: "cell (rows df1 ! i) ''Filled_Vol_Pct'' = Flt x1"
    using to_numeric_Inr(5)[OF 1 assms(2)] by blast
  obtain x2 where x2: "cell (rows df2 ! i) ''Avg_Latency_ms'' = Flt x2"
    using to_numeric_Inr(5)[OF 2 l1] by blast
  obtain x3 where x3: "cell (rows ndf ! i) ''Total_Filled_Vol'' = Flt x3"
    using to_numeric_Inr(5)[OF 3 l2] by blast
  have keep1: "cell (rows ndf ! i) ''Filled_Vol_Pct'' = Flt x1"
    using to_numeric_Inr(6)[OF 2 l1, of "''Filled_Vol_Pct''"]
      to_numeric_Inr(6)[OF 3 l2, of "''Filled_Vol_Pct''"] x1 by simp
  have keep2: "cell (rows ndf ! i) ''Avg_Latency_ms'' = Flt x2"
    using to_numeric_Inr(6)[OF 3 l2, of "''Avg_Latency_ms''"] x2 by simp
  have p1: "py_float L (clean_pct (astype_str L (cell (rows df ! i) ''% Filled Volume''))) = Some x1"
  proof (cases "py_float L (clean_pct (astype_str L (cell (rows df ! i) ''% Filled Volume'')))")
    case None
    have "rows df ! i \<in> set (rows df)" using assms(2) by simp
    from to_numeric_fails[where clean = clean_pct and src = "''% Filled Volume''"
        and dst = "''Filled_Vol_Pct''", OF this None] 1
    show ?thesis by auto
  next
    case (Some y)
    from to_numeric_Inr(4)[where clean = clean_pct, OF 1 assms(2) Some] x1 Some
    show ?thesis by simp
  qed
  have p2: "py_float L (clean_latency (astype_str L (cell (rows df ! i) ''Avg. Fill Latency''))) = Some x2"
  proof (cases "py_float L (clean_latency (astype_str L (cell (rows df1 ! i) ''Avg. Fill Latency'')))")
    case None
    have "rows df1 ! i \<in> set (rows df1)" using l1 by simp
    from to_numeric_fails[where clean = clean_latency and src = "''Avg. Fill Latency''"
        and dst = "''Avg_Latency_ms''", OF this None] 2
    show ?thesis by auto
  next
    case (Some y)
    from to_numeric_Inr(4)[where clean = clean_latency, OF 2 l1 Some] x2 Some src2
    show ?thesis by simp
  qed
  have p3: "py_float L (clean_volume (astype_str L (cell (rows df ! i) ''Total Filled Volume''))) = Some x3"
  proof (cases "py_float L (clean_volume (astype_str L (cell (rows df2 ! i) ''Total Filled Volume'')))")
    case None
    have "rows df2 ! i \<in> set (rows df2)" using l2 by simp
    from to_numeric_fails[where clean = clean_volume and src = "''Total Filled Volume''"
        and dst = "''Total_Filled_Vol''", OF this None] 3
    show ?thesis by auto
  next
    case (Some y)
    from to_numeric_Inr(4)[where clean = clean_volume, OF 3 l2 Some] x3 Some src3
    show ?thesis by simp
  qed
  show "\<exists>x. py_float L (clean_pct (astype_str L (cell (rows df ! i) ''% Filled Volume''))) = Some x
               \<and> cell (rows ndf ! i) ''Filled_Vol_Pct'' = Flt x"
    using p1 keep1 by blast
  show "\<exists>x. py_float L (clean_latency (astype_str L (cell (rows df ! i) ''Avg. Fill Latency''))) = Some x
               \<and> cell (rows ndf ! i) ''Avg_Latency_ms'' = Flt x"
    using p2 keep2 by blast
  show "\<exists>x. py_float L (clean_volume (astype_str L (cell (rows df ! i) ''Total Filled Volume''))) = Some x
               \<and> cell (rows ndf ! i) ''Total_Filled_Vol'' = Flt x"
    using p3 x3 by blast
qed

lemmas float_defs = py_float_def strip_def is_space_def is_digit_def decimal_def exponent_def
  digits_val_def digit_val_def pow10_def inf_or_nan_def lower_def

lemmas frame_defs = normalize_def to_numeric_def col_def set_col_def set_cell_def astype_str_def
  clean_pct_def clean_latency_def clean_volume_def cell_def report_def report_row_def
  required_columns_def exact_lib_def

lemmas script_defs = dashboard_def analyse_def missing_columns_def select_symbol_def
  best_worst_def loc_idx_def idxmax_def idxmin_def argmax_scan_def argmin_scan_def fillna_def
  ranking_def project_def
  rename_def rename_label_def rank_source_def rank_names_def sort_key_def sort_values_def
  nargsort_def isna_def insertion_argsort_def

lemma clean_pct_filter: "clean_pct s = filter (\<lambda>c. c \<noteq> CHR ''%'') s"
  by (simp add: clean_pct_def replace_char)

lemma clean_volume_filter:
  "clean_volume s = filter (\<lambda>c. c \<noteq> CHR ''$'' \<and> c \<noteq> CHR '','') s"
  by (simp add: clean_volume_def replace_char conj_commute)

lemma clean_latency_strip: "clean_latency s = strip_ms s"
  by (simp add: clean_latency_def replace_ms)

lemma required_present:
  assumes "missing_columns df = []"
  shows "''Core Symbol'' \<in> set (columns df)" and "''Maker Stream Name'' \<in> set (columns df)"
    and "''% Filled Volume'' \<in> set (columns df)" and "''Avg. Fill Latency'' \<in> set (columns df)"
    and "''Total Filled Volume'' \<in> set (columns df)"
proof -
  have "\<forall>c\<in>set required_columns. c \<in> set (columns df)"
    using assms by (simp add: missing_columns_def filter_empty_conv)
  then show "''Core Symbol'' \<in> set (columns df)" and "''Maker Stream Name'' \<in> set (columns df)"
    and "''% Filled Volume'' \<in> set (columns df)" and "''Avg. Fill Latency'' \<in> set (columns df)"
    and "''Total Filled Volume'' \<in> set (columns df)"
    by (simp_all add: required_columns_def)
qed

lemma normalize_fails:
  assumes "r \<in> set (rows df)"
    and "py_float L (clean_pct (astype_str L (cell r ''% Filled Volume''))) = None
         \<or> py_float L (clean_latency (astype_str L (cell r ''Avg. Fill Latency''))) = None
         \<or> py_float L (clean_volume (astype_str L (cell r ''Total Filled Volume''))) = None"
  shows "\<exists>e. normalize L df = Inl e"
proof (cases "normalize L df")
  case (Inl e)
  then show ?thesis by blast
next
  case (Inr ndf)
  from assms(1) obtain i where i: "i < length (rows df)" "rows df ! i = r"
    by (auto simp: in_set_conv_nth)
  from normalize_values[OF Inr i(1)] i(2) assms(2) show ?thesis by auto
qed

lemma normalize_Inl:
  assumes "normalize L df = Inl e" and "missing_columns df = []"
  shows "\<exists>r\<in>set (rows df).
           e = CouldNotConvert (clean_pct (astype_str L (cell r ''% Filled Volume'')))
             \<and> py_float L (clean_pct (astype_str L (cell r ''% Filled Volume''))) = None
         \<or> e = CouldNotConvert (clean_latency (astype_str L (cell r ''Avg. Fill Latency'')))
             \<and> py_float L (clean_latency (astype_str L (cell r ''Avg. Fill Latency''))) = None
         \<or> e = CouldNotConvert (clean_volume (astype_str L (cell r ''Total Filled Volume'')))
             \<and> py_float L (clean_volume (astype_str L (cell r ''Total Filled Volume''))) = None"
proof (cases "to_numeric L clean_pct ''% Filled Volume'' ''Filled_Vol_Pct'' df")
  case (Inl e1)
  with assms(1) have "e1 = e" by (simp add: normalize_def)
  with to_numeric_Inl[OF Inl] required_present(3)[OF assms(2)] show ?thesis by blast
next
  case 1: (Inr df1)
  have c1: "set (columns df1) = insert ''Filled_Vol_Pct'' (set (columns df))"
    by (rule to_numeric_Inr(2)[OF 1])
  have n1: "length (rows df1) = length (rows df)" by (rule to_numeric_Inr(3)[OF 1])
  show ?thesis
  proof (cases "to_numeric L clean_latency ''Avg. Fill Latency'' ''Avg_Latency_ms'' df1")
    case (Inl e2)
    with assms(1) 1 have "e2 = e" by (simp add: normalize_def)
    with to_numeric_Inl[OF Inl] required_present(4)[OF assms(2)] c1
    obtain r1 where r1: "r1 \<in> set (rows df1)"
      "e = CouldNotConvert (clean_latency (astype_str L (cell r1 ''Avg. Fill Latency'')))"
      "py_float L (clean_latency (astype_str L (cell r1 ''Avg. Fill Latency''))) = None"
      by auto
    from r1(1) obtain i where i: "i < length (rows df1)" "rows df1 ! i = r1"
      by (auto simp: in_set_conv_nth)
    have "cell r1 ''Avg. Fill Latency'' = cell (rows df ! i) ''Avg. Fill Latency''"
      using to_numeric_Inr(6)[OF 1, of i "''Avg. Fill Latency''"] i n1 by simp
    moreover have "rows df ! i \<in> set (rows df)" using i n1 by simp
    ultimately show ?thesis using r1 by auto
  next
    case 2: (Inr df2)
    have c2: "set (columns df2) = insert ''Avg_Latency_ms'' (set (columns df1))"
      by (rule to_numeric_Inr(2)[OF 2])
    have n2: "length (rows df2) = length (rows df1)" by (rule to_numeric_Inr(3)[OF 2])
    from assms(1) 1 2
    have 3: "to_numeric L clean_volume ''Total Filled Volume'' ''Total_Filled_Vol'' df2 = Inl e"
      by (simp add: normalize_def)
    from to_numeric_Inl[OF 3] required_present(5)[OF assms(2)] c1 c2
    obtain r2 where r2: "r2 \<in> set (rows df2)"
      "e = CouldNotConvert (clean_volume (astype_str L (cell r2 ''Total Filled Volume'')))"
      "py_float L (clean_volume (astype_str L (cell r2 ''Total Filled Volume''))) = None"
      by auto
    from r2(1) obtain i where i: "i < length (rows df2)" "rows df2 ! i = r2"
      by (auto simp: in_set_conv_nth)
    have "cell r2 ''Total Filled Volume'' = cell (rows df ! i) ''Total Filled Volume''"
      using to_numeric_Inr(6)[OF 1, of i "''Total Filled Volume''"]
        to_numeric_Inr(6)[OF 2, of i "''Total Filled Volume''"] i n1 n2 by simp
    moreover have "rows df ! i \<in> set (rows df)" using i n1 n2 by simp
    ultimately show ?thesis using r2 by auto
  qed
qed

lemma set_col_prefix: "prefix (columns df) (columns (set_col df c vs))"
  by (simp add: set_col_def)

lemma to_numeric_prefix:
  "to_numeric L clean src dst df = Inr df' \<Longrightarrow> prefix (columns df) (columns df')"
  by (auto simp: to_numeric_def set_col_prefix split: sum.splits)

lemma normalize_prefix:
  assumes "normalize L df = Inr ndf"
  shows "prefix (columns df) (columns ndf)"
proof -
  from assms obtain df1 df2 where
    1: "to_numeric L clean_pct ''% Filled Volume'' ''Filled_Vol_Pct'' df = Inr df1" and
    2: "to_numeric L clean_latency ''Avg. Fill Latency'' ''Avg_Latency_ms'' df1 = Inr df2" and
    3: "to_numeric L clean_volume ''Total Filled Volume'' ''Total_Filled_Vol'' df2 = Inr ndf"
    by (rule normalize_steps)
  from to_numeric_prefix[OF 1] to_numeric_prefix[OF 2] to_numeric_prefix[OF 3]
  show ?thesis by (meson prefix_order.trans)
qed

lemma analyse_table:
  "analyse L df selected_symbol selected_metric = Inr out \<Longrightarrow> normalize L df = Inr (table out)"
  by (auto simp: analyse_def split: sum.splits)

lemma eurusd_normalized: "\<not> isl (normalize exact_lib eurusd)"
  by (simp add: eurusd_def frame_defs float_defs)

section \<open>Facts about the best and the worst\<close>

lemma flt_irrefl: "\<not> flt a a"
  by (cases a) simp_all

lemma flt_trans: "flt a b \<Longrightarrow> flt b c \<Longrightarrow> flt a c"
  by (cases a; cases b; cases c) simp_all



lemma flt_total: "a \<noteq> NaN \<Longrightarrow> b \<noteq> NaN \<Longrightarrow> \<not> flt a b \<Longrightarrow> \<not> flt b a \<Longrightarrow> a = b"
  by (cases a; cases b) simp_all

lemma flt_not_feq: "flt a b \<Longrightarrow> \<not> feq a b"
  by (cases a; cases b) simp_all













lemma resolve_cases:
  assumes "resolve m = Some (c, hib)"
  shows "m = ''% Filled Volume'' \<and> c = ''Filled_Vol_Pct'' \<and> hib
       \<or> m = ''Avg Fill Latency (ms)'' \<and> c = ''Avg_Latency_ms'' \<and> \<not> hib
       \<or> m = ''Total Filled Volume'' \<and> c = ''Total_Filled_Vol'' \<and> hib"
  using assms by (auto simp: resolve_def split: if_splits)


lemma scoped_Inr:
  assumes "scoped L df sel = Inr s"
  obtains ndf where "missing_columns df = []" "normalize L df = Inr ndf"
    "columns s = columns ndf"
    "rows s = filter (\<lambda>r. veq (cell r ''Core Symbol'') sel) (rows ndf)"
proof -
  from assms have m: "missing_columns df = []"
    by (auto simp: scoped_def split: if_splits)
  with assms obtain ndf where n: "normalize L df = Inr ndf" "select_symbol ndf sel = Inr s"
    by (auto simp: scoped_def split: sum.splits)
  from n(2) have "columns s = columns ndf"
    "rows s = filter (\<lambda>r. veq (cell r ''Core Symbol'') sel) (rows ndf)"
    by (auto simp: select_symbol_def split: sum.splits)
  with m n(1) show ?thesis by (rule that)
qed

lemma normalize_canonical:
  assumes "normalize L df = Inr ndf" and "r \<in> set (rows ndf)"
  shows "\<exists>x. cell r ''Filled_Vol_Pct'' = Flt x" and "\<exists>x. cell r ''Avg_Latency_ms'' = Flt x"
    and "\<exists>x. cell r ''Total_Filled_Vol'' = Flt x"
proof -
  from assms(2) obtain i where i: "i < length (rows ndf)" "rows ndf ! i = r"
    by (auto simp: in_set_conv_nth)
  then have il: "i < length (rows df)" using normalize_length[OF assms(1)] by simp
  from normalize_values[OF assms(1) il] i(2)
  show "\<exists>x. cell r ''Filled_Vol_Pct'' = Flt x" and "\<exists>x. cell r ''Avg_Latency_ms'' = Flt x"
    and "\<exists>x. cell r ''Total_Filled_Vol'' = Flt x"
    by auto
qed

lemma scoped_canonical:
  assumes s: "scoped L df sel = Inr s" and r: "resolve m = Some (c, hib)"
  shows "c \<in> set (columns s)" and "\<forall>r\<in>set (rows s). \<exists>x. cell r c = Flt x"
proof -
  from s obtain ndf where n: "missing_columns df = []" "normalize L df = Inr ndf"
    "columns s = columns ndf"
    "rows s = filter (\<lambda>r. veq (cell r ''Core Symbol'') sel) (rows ndf)"
    by (rule scoped_Inr)
  have cs: "c = ''Filled_Vol_Pct'' \<or> c = ''Avg_Latency_ms'' \<or> c = ''Total_Filled_Vol''"
    using resolve_cases[OF r] by blast
  show "c \<in> set (columns s)"
    using normalize_columns[OF n(2)] n(3) cs by auto
  show "\<forall>r\<in>set (rows s). \<exists>x. cell r c = Flt x"
  proof
    fix q assume "q \<in> set (rows s)"
    then have "q \<in> set (rows ndf)" using n(4) by simp
    from normalize_canonical[OF n(2) this] cs show "\<exists>x. cell q c = Flt x" by blast
  qed
qed

lemma normalize_succeeds:
  assumes "missing_columns df = []"
    and "\<forall>r\<in>set (rows df).
           py_float L (clean_pct (astype_str L (cell r ''% Filled Volume''))) \<noteq> None
         \<and> py_float L (clean_latency (astype_str L (cell r ''Avg. Fill Latency''))) \<noteq> None
         \<and> py_float L (clean_volume (astype_str L (cell r ''Total Filled Volume''))) \<noteq> None"
  shows "\<exists>ndf. normalize L df = Inr ndf"
proof (cases "normalize L df")
  case (Inl e)
  from normalize_Inl[OF Inl assms(1)] assms(2) show ?thesis by blast
next
  case (Inr ndf)
  then show ?thesis by blast
qed











lemma scoped_analyse:
  assumes "scoped L df sel = Inr s"
  shows "\<exists>ndf. normalize L df = Inr ndf \<and> dashboard L df sel m =
           (case best_worst s m of Inl e \<Rightarrow> Inl e
            | Inr x \<Rightarrow>
                (case ranking L s m (metric_col x) (higher_is_better x) of Inl e \<Rightarrow> Inl e
                 | Inr r \<Rightarrow>
                     Inr \<lparr>best_row = best_row x, worst_row = worst_row x,
                          metric_col = metric_col x, higher_is_better = higher_is_better x,
                          rank_df = r, table = ndf\<rparr>))"
proof -
  from assms have m: "missing_columns df = []" by (auto simp: scoped_def split: if_splits)
  with assms obtain ndf where n: "normalize L df = Inr ndf" "select_symbol ndf sel = Inr s"
    by (auto simp: scoped_def split: sum.splits)
  show ?thesis by (simp add: dashboard_def analyse_def m n)
qed







lemma eurusd_scoped:
  "scoped exact_lib eurusd (Str ''EURUSD'') =
     Inr \<lparr>columns = required_columns @ [''Filled_Vol_Pct'', ''Avg_Latency_ms'', ''Total_Filled_Vol''],
          rows =
            [report_row (Str ''EURUSD'') (Str ''LP_A'') (Str ''87.3%'') (Str ''120ms'')
               (Str ''$10,000.00'')
             @ [(''Filled_Vol_Pct'', Flt (Fin (873 / 10))), (''Avg_Latency_ms'', Flt (Fin 120)),
                (''Total_Filled_Vol'', Flt (Fin 10000))],
             report_row (Str ''EURUSD'') (Str ''LP_B'') (Str ''92.1%'') (Str ''95ms'')
               (Str ''$8,500.50'')
             @ [(''Filled_Vol_Pct'', Flt (Fin (921 / 10))), (''Avg_Latency_ms'', Flt (Fin 95)),
                (''Total_Filled_Vol'', Flt (Fin (17001 / 2)))]]\<rparr>"
  by (simp add: eurusd_def scoped_def frame_defs float_defs script_defs)


section \<open>Facts about sorting and the ranking table\<close>

lemma vlt_irrefl: "\<not> vlt a a"
  by (cases a) (simp_all add: flt_irrefl)

lemma vlt_trans: "vlt a b \<Longrightarrow> vlt b c \<Longrightarrow> vlt a c"
proof -
  assume a: "vlt a b" "vlt b c"
  then obtain x y z where "a = Flt x" "b = Flt y" "c = Flt z"
    by (cases a; cases b; cases c) simp_all
  with a flt_trans[of x y z] show "vlt a c" by simp
qed

lemma flt_NaN: "\<not> flt x NaN"
  by (cases x) simp_all

lemma vlt_NaN: "\<not> vlt (Flt NaN) v" "\<not> vlt v (Flt NaN)"
proof -
  show "\<not> vlt (Flt NaN) v" by (cases v) simp_all
  show "\<not> vlt v (Flt NaN)" by (cases v) (simp_all add: flt_NaN)
qed

lemma vlt_sortable_total:
  "sortable a \<Longrightarrow> sortable b \<Longrightarrow> \<not> vlt a b \<Longrightarrow> \<not> vlt b a \<Longrightarrow> a = b"
proof -
  assume a: "sortable a" "sortable b" "\<not> vlt a b" "\<not> vlt b a"
  then obtain x y where xy: "a = Flt x" "b = Flt y" "x \<noteq> NaN" "y \<noteq> NaN"
    by (cases a; cases b) (simp_all add: sortable_def)
  with a have "\<not> flt x y" "\<not> flt y x" by simp_all
  from flt_total[OF xy(3,4) this] xy show "a = b" by simp
qed

lemma perm_upt_set: "mset p = mset [0..<n] \<Longrightarrow> set p = {0..<n}"
  using mset_eq_setD[of p "[0..<n]"] by simp

lemma perm_upt_length: "mset p = mset [0..<n] \<Longrightarrow> length p = n"
  using mset_eq_length[of p "[0..<n]"] by simp

lemma map_nth_perm:
  assumes "mset p = mset [0..<length xs]"
  shows "mset (map ((!) xs) p) = mset xs"
proof -
  have "mset (map ((!) xs) p) = image_mset ((!) xs) (mset p)" by simp
  also have "\<dots> = image_mset ((!) xs) (mset [0..<length xs])" by (simp add: assms)
  also have "\<dots> = mset (map ((!) xs) [0..<length xs])" by simp
  also have "\<dots> = mset xs" by (simp add: map_nth)
  finally show ?thesis .
qed

lemma map_nth_map:
  assumes "\<forall>i\<in>set p. i < length xs"
  shows "map ((!) (map f xs)) p = map f (map ((!) xs) p)"
  using assms by (induction p) simp_all

lemma filter_by_index:
  "map ((!) xs) (filter (\<lambda>i. P (xs ! i)) [0..<length xs]) = filter P xs"
proof -
  have "filter P xs = filter P (map ((!) xs) [0..<length xs])" by (simp add: map_nth)
  also have "\<dots> = map ((!) xs) (filter (P \<circ> (!) xs) [0..<length xs])" by (simp only: filter_map)
  finally show ?thesis by (simp add: comp_def)
qed

lemma mset_filter_partition:
  "mset (filter (\<lambda>x. \<not> P x) xs) + mset (filter P xs) = mset xs"
  by (induction xs) simp_all

lemma argsort_ok_perm: "argsort_ok f \<Longrightarrow> mset (f ks) = mset [0..<length ks]"
  by (simp add: argsort_ok_def)

lemma argsort_ok_sorted:
  "argsort_ok f \<Longrightarrow> list_all sortable ks \<Longrightarrow> sorted_wrt (\<lambda>i j. \<not> vlt (ks ! j) (ks ! i)) (f ks)"
  by (simp add: argsort_ok_def)

text \<open>The part of \<open>nargsort\<close> before the positions of the NaN keys.\<close>

lemma nargsort_split:
  "nargsort L items ascending =
     (let nn = filter (\<lambda>i. \<not> isna (items ! i)) [0..<length items];
          nn' = (if ascending then nn else rev nn);
          ix = map ((!) nn') (argsort L (map ((!) items) nn'))
      in (if ascending then ix else rev ix))
     @ filter (\<lambda>i. isna (items ! i)) [0..<length items]"
  by (simp add: nargsort_def Let_def)

lemma nargsort_head_perm:
  assumes ok: "argsort_ok (argsort L)"
  shows "mset (map ((!) nn) (argsort L (map ((!) items) nn))) = mset nn"
proof -
  have "mset (argsort L (map ((!) items) nn)) = mset [0..<length nn]"
    using argsort_ok_perm[OF ok, of "map ((!) items) nn"] by simp
  from map_nth_perm[OF this] show ?thesis .
qed

lemma nargsort_perm:
  assumes ok: "argsort_ok (argsort L)"
  shows "mset (nargsort L items ascending) = mset [0..<length items]"
proof -
  define nn where "nn = filter (\<lambda>i. \<not> isna (items ! i)) [0..<length items]"
  define nn' where "nn' = (if ascending then nn else rev nn)"
  define ix where "ix = map ((!) nn') (argsort L (map ((!) items) nn'))"
  have h: "mset ix = mset nn"
    unfolding ix_def using nargsort_head_perm[OF ok, of nn' items] by (simp add: nn'_def)
  have "nargsort L items ascending =
          (if ascending then ix else rev ix) @ filter (\<lambda>i. isna (items ! i)) [0..<length items]"
    by (simp add: nargsort_split Let_def ix_def nn'_def nn_def)
  then have "mset (nargsort L items ascending) =
          mset nn + mset (filter (\<lambda>i. isna (items ! i)) [0..<length items])"
    using h by simp
  also have "\<dots> = mset [0..<length items]"
    unfolding nn_def by (rule mset_filter_partition)
  finally show ?thesis .
qed

lemma nargsort_in_range:
  assumes ok: "argsort_ok (argsort L)"
  shows "\<forall>i\<in>set (nargsort L items ascending). i < length items"
  using perm_upt_set[OF nargsort_perm[OF ok, of items ascending]] by simp

lemma sort_rows_perm:
  assumes ok: "argsort_ok (argsort L)" and "length items = length xs"
  shows "mset (map ((!) xs) (nargsort L items ascending)) = mset xs"
  using map_nth_perm[of "nargsort L items ascending" xs] nargsort_perm[OF ok, of items ascending]
    assms(2) by simp


lemma sorted_wrt_all:
  "(\<forall>x\<in>set xs. \<forall>y\<in>set xs. P x y) \<Longrightarrow> sorted_wrt P xs"
  by (induction xs) simp_all

lemma nargsort_head_sorted:
  assumes ok: "argsort_ok (argsort L)"
    and fl: "\<forall>v\<in>set items. \<exists>x. v = Flt x"
    and nn: "\<forall>i\<in>set nn. i < length items \<and> \<not> isna (items ! i)"
  shows "sorted_wrt (\<lambda>i j. \<not> vlt (items ! j) (items ! i))
           (map ((!) nn) (argsort L (map ((!) items) nn)))"
proof -
  define ks where "ks = map ((!) items) nn"
  define p where "p = argsort L ks"
  have len: "length ks = length nn" by (simp add: ks_def)
  have "sortable v" if "v \<in> set ks" for v
  proof -
    from that obtain i where i: "i \<in> set nn" "v = items ! i" by (auto simp: ks_def)
    with nn have r: "i < length items" "\<not> isna (items ! i)" by auto
    then have "items ! i \<in> set items" by simp
    with fl obtain x where "items ! i = Flt x" by blast
    with r(2) i(2) show ?thesis by (auto simp: sortable_def isna_def)
  qed
  then have "list_all sortable ks" by (simp add: list_all_iff)
  from argsort_ok_sorted[OF ok this]
  have sp: "sorted_wrt (\<lambda>i j. \<not> vlt (ks ! j) (ks ! i)) p" by (simp add: p_def)
  have setp: "set p = {0..<length nn}"
    using perm_upt_set[OF argsort_ok_perm[OF ok, of ks]] by (simp add: p_def len)
  have "sorted_wrt (\<lambda>a b. \<not> vlt (items ! (nn ! b)) (items ! (nn ! a))) p"
  proof (rule sorted_wrt_mono_rel[OF _ sp])
    fix a b assume "a \<in> set p" "b \<in> set p" "\<not> vlt (ks ! b) (ks ! a)"
    then show "\<not> vlt (items ! (nn ! b)) (items ! (nn ! a))"
      using setp by (simp add: ks_def)
  qed
  then show ?thesis by (simp add: sorted_wrt_map p_def ks_def)
qed

lemma nargsort_sorted:
  assumes ok: "argsort_ok (argsort L)"
    and fl: "\<forall>v\<in>set items. \<exists>x. v = Flt x"
  shows "sorted_wrt (\<lambda>i j. if ascending then \<not> vlt (items ! j) (items ! i)
                            else \<not> vlt (items ! i) (items ! j))
           (nargsort L items ascending)"
proof -
  define nn where "nn = filter (\<lambda>i. \<not> isna (items ! i)) [0..<length items]"
  define na where "na = filter (\<lambda>i. isna (items ! i)) [0..<length items]"
  define nn' where "nn' = (if ascending then nn else rev nn)"
  define ix where "ix = map ((!) nn') (argsort L (map ((!) items) nn'))"
  have e: "nargsort L items ascending = (if ascending then ix else rev ix) @ na"
    by (simp add: nargsort_split Let_def ix_def nn'_def nn_def na_def)
  have "\<forall>i\<in>set nn'. i < length items \<and> \<not> isna (items ! i)"
    by (auto simp: nn'_def nn_def)
  from nargsort_head_sorted[OF ok fl this]
  have h: "sorted_wrt (\<lambda>i j. \<not> vlt (items ! j) (items ! i)) ix" by (simp add: ix_def)
  have nan: "items ! i = Flt NaN" if "i \<in> set na" for i
    using that by (simp add: na_def isna_def)
  show ?thesis
  proof (cases ascending)
    case True
    have "sorted_wrt (\<lambda>i j. \<not> vlt (items ! j) (items ! i)) na"
      by (rule sorted_wrt_all) (simp add: nan vlt_NaN)
    moreover have "\<forall>x\<in>set ix. \<forall>y\<in>set na. \<not> vlt (items ! y) (items ! x)"
      by (simp add: nan vlt_NaN)
    ultimately have "sorted_wrt (\<lambda>i j. \<not> vlt (items ! j) (items ! i)) (ix @ na)"
      using h by (simp add: sorted_wrt_append)
    moreover have "nargsort L items ascending = ix @ na" using e True by simp
    ultimately show ?thesis using True by (simp only: if_True)
  next
    case False
    have "sorted_wrt (\<lambda>i j. \<not> vlt (items ! i) (items ! j)) na"
      by (rule sorted_wrt_all) (simp add: nan vlt_NaN)
    moreover have "\<forall>x\<in>set ix. \<forall>y\<in>set na. \<not> vlt (items ! x) (items ! y)"
      by (simp add: nan vlt_NaN)
    moreover have "sorted_wrt (\<lambda>i j. \<not> vlt (items ! i) (items ! j)) (rev ix)"
      using h by (simp add: sorted_wrt_rev)
    ultimately have "sorted_wrt (\<lambda>i j. \<not> vlt (items ! i) (items ! j)) (rev ix @ na)"
      by (simp add: sorted_wrt_append)
    moreover have "nargsort L items ascending = rev ix @ na" using e False by simp
    ultimately show ?thesis using False by (simp only: if_False)
  qed
qed


lemma nargsort_nan_last:
  assumes ok: "argsort_ok (argsort L)"
  shows "\<exists>A. nargsort L items ascending = A @ filter (\<lambda>i. isna (items ! i)) [0..<length items]
           \<and> mset A = mset (filter (\<lambda>i. \<not> isna (items ! i)) [0..<length items])"
proof -
  define nn where "nn = filter (\<lambda>i. \<not> isna (items ! i)) [0..<length items]"
  define nn' where "nn' = (if ascending then nn else rev nn)"
  define ix where "ix = map ((!) nn') (argsort L (map ((!) items) nn'))"
  have h: "mset ix = mset nn"
    unfolding ix_def using nargsort_head_perm[OF ok, of nn' items] by (simp add: nn'_def)
  have "nargsort L items ascending =
          (if ascending then ix else rev ix) @ filter (\<lambda>i. isna (items ! i)) [0..<length items]"
    by (simp add: nargsort_split Let_def ix_def nn'_def nn_def)
  moreover have "mset (if ascending then ix else rev ix) = mset nn" using h by simp
  ultimately show ?thesis unfolding nn_def by blast
qed

lemma insert_idx_mset: "mset (insert_idx ks i js) = add_mset i (mset js)"
  by (induction js) simp_all

lemma argsort_upto_mset: "mset (argsort_upto ks n) = mset [0..<n]"
  by (induction n) (simp_all add: insert_idx_mset)

lemma insert_idx_sorted:
  "sorted_wrt (\<lambda>i j. \<not> vlt (ks ! j) (ks ! i)) js
     \<Longrightarrow> sorted_wrt (\<lambda>i j. \<not> vlt (ks ! j) (ks ! i)) (insert_idx ks i js)"
proof (induction js)
  case Nil
  then show ?case by simp
next
  case (Cons j js)
  show ?case
  proof (cases "vlt (ks ! i) (ks ! j)")
    case True
    have "\<not> vlt (ks ! x) (ks ! i)" if "x \<in> set (j # js)" for x
    proof
      assume "vlt (ks ! x) (ks ! i)"
      then have "vlt (ks ! x) (ks ! j)" using True by (rule vlt_trans)
      moreover have "\<not> vlt (ks ! x) (ks ! j)"
        using that Cons.prems by (auto simp: vlt_irrefl)
      ultimately show False by simp
    qed
    then show ?thesis using True Cons.prems by simp
  next
    case False
    have "set (insert_idx ks i js) = insert i (set js)"
      using insert_idx_mset[of ks i js] by (metis mset_eq_setD set_mset_add_mset_insert set_mset_mset)
    then show ?thesis using False Cons by auto
  qed
qed

lemma argsort_upto_sorted: "sorted_wrt (\<lambda>i j. \<not> vlt (ks ! j) (ks ! i)) (argsort_upto ks n)"
  by (induction n) (simp_all add: insert_idx_sorted)

lemma insertion_argsort_ok: "argsort_ok insertion_argsort"
  by (simp add: argsort_ok_def insertion_argsort_def argsort_upto_mset argsort_upto_sorted)

lemma exact_lib_ok: "argsort_ok (argsort exact_lib)"
  by (simp add: exact_lib_def insertion_argsort_ok)

lemma ranked_frame:
  assumes "set rank_source \<subseteq> set (columns s)"
  shows "\<exists>p. project s rank_source = Inr p
           \<and> rename rank_names p =
               \<lparr>columns = [''LP Name'', ''% Filled Volume'', ''Avg Fill Latency (ms)'',
                           ''Total Filled Volume''],
                rows = map present (rows s)\<rparr>"
proof -
  have "filter (\<lambda>c. c \<notin> set (columns s)) rank_source = []"
    using assms by (auto simp: filter_empty_conv)
  then have p: "project s rank_source =
      Inr \<lparr>columns = rank_source, rows = map (\<lambda>r. map (\<lambda>c. (c, cell r c)) rank_source) (rows s)\<rparr>"
    by (simp add: project_def)
  have "rename rank_names
          \<lparr>columns = rank_source, rows = map (\<lambda>r. map (\<lambda>c. (c, cell r c)) rank_source) (rows s)\<rparr>
        = \<lparr>columns = [''LP Name'', ''% Filled Volume'', ''Avg Fill Latency (ms)'',
                           ''Total Filled Volume''],
                rows = map present (rows s)\<rparr>"
    by (simp add: rename_def rename_label_def rank_names_def rank_source_def present_def)
  with p show ?thesis by simp
qed

lemma present_cell: "resolve m = Some (c, hib) \<Longrightarrow> cell (present r) m = cell r c"
  by (auto dest!: resolve_cases simp: present_def cell_def)

lemma sort_key_label:
  assumes "resolve m = Some (c, hib)"
  shows "m \<in> set [''LP Name'', ''% Filled Volume'', ''Avg Fill Latency (ms)'', ''Total Filled Volume'']"
    and "sort_key [''LP Name'', ''% Filled Volume'', ''Avg Fill Latency (ms)'',
           ''Total Filled Volume''] m mcol = m"
  using resolve_cases[OF assms] by (auto simp: sort_key_def)

lemma ranking_eq:
  assumes src: "set rank_source \<subseteq> set (columns s)" and r: "resolve m = Some (c, hib)"
  shows "ranking L s m mcol d =
           Inr \<lparr>columns = [''LP Name'', ''% Filled Volume'', ''Avg Fill Latency (ms)'',
                           ''Total Filled Volume''],
                rows = map ((!) (map present (rows s)))
                         (nargsort L (map (\<lambda>r. cell r c) (rows s)) (\<not> d))\<rparr>"
proof -
  from ranked_frame[OF src] obtain p where p: "project s rank_source = Inr p"
    "rename rank_names p =
               \<lparr>columns = [''LP Name'', ''% Filled Volume'', ''Avg Fill Latency (ms)'',
                           ''Total Filled Volume''],
                rows = map present (rows s)\<rparr>"
    by blast
  show ?thesis
    using sort_key_label(1)[OF r] sort_key_label(2)[OF r, of mcol]
    by (simp add: ranking_def p Let_def sort_values_def col_def comp_def present_cell[OF r]
        del: set_simps)
qed

lemma ranking_by_resolver_eq:
  assumes src: "set rank_source \<subseteq> set (columns s)" and r: "resolve m = Some (c, hib)"
    and c: "c \<in> set (columns s)"
  shows "ranking_by_resolver L s m =
           Inr \<lparr>columns = [''LP Name'', ''% Filled Volume'', ''Avg Fill Latency (ms)'',
                           ''Total Filled Volume''],
                rows = map present (map ((!) (rows s))
                         (nargsort L (map (\<lambda>r. cell r c) (rows s)) (\<not> hib)))\<rparr>"
proof -
  define s' where "s' = s\<lparr>rows := map ((!) (rows s)) (nargsort L (map (\<lambda>r. cell r c) (rows s)) (\<not> hib))\<rparr>"
  have sv: "sort_values L s c (\<not> hib) = Inr s'"
    using c by (simp add: sort_values_def col_def s'_def)
  have "set rank_source \<subseteq> set (columns s')" using src by (simp add: s'_def)
  from ranked_frame[OF this] obtain p where p: "project s' rank_source = Inr p"
    "rename rank_names p =
               \<lparr>columns = [''LP Name'', ''% Filled Volume'', ''Avg Fill Latency (ms)'',
                           ''Total Filled Volume''],
                rows = map present (rows s')\<rparr>"
    by blast
  show ?thesis
    by (simp add: ranking_by_resolver_def r sv p) (simp add: s'_def)
qed

lemma scoped_rank_source:
  assumes "scoped L df sel = Inr s"
  shows "set rank_source \<subseteq> set (columns s)"
proof -
  from assms obtain ndf where n: "missing_columns df = []" "normalize L df = Inr ndf"
    "columns s = columns ndf"
    "rows s = filter (\<lambda>r. veq (cell r ''Core Symbol'') sel) (rows ndf)"
    by (rule scoped_Inr)
  show ?thesis
    using normalize_columns[OF n(2)] n(3) required_present(2)[OF n(1)]
    by (simp add: rank_source_def)
qed

lemma best_worst_direction:
  assumes "best_worst s m = Inr x" and r: "resolve m = Some (c, hib)"
  shows "metric_col x = c" and "higher_is_better x = hib"
proof -
  from resolve_cases[OF r] consider
    (pct) "m = ''% Filled Volume''" "c = ''Filled_Vol_Pct''" "hib"
    | (lat) "m = ''Avg Fill Latency (ms)''" "c = ''Avg_Latency_ms''" "\<not> hib"
    | (vol) "m = ''Total Filled Volume''" "c = ''Total_Filled_Vol''" "hib"
    by blast
  then have "metric_col x = c \<and> higher_is_better x = hib"
  proof cases
    case pct
    with assms(1) show ?thesis by (auto simp: best_worst_def split: sum.splits)
  next
    case lat
    with assms(1) show ?thesis by (auto simp: best_worst_def split: sum.splits)
  next
    case vol
    with assms(1) show ?thesis by (auto simp: best_worst_def split: sum.splits)
  qed
  then show "metric_col x = c" and "higher_is_better x = hib" by simp_all
qed

lemma dashboard_rank_df:
  assumes s: "scoped L df sel = Inr s" and r: "resolve m = Some (c, hib)"
    and d: "dashboard L df sel m = Inr out"
  shows "ranking L s m c hib = Inr (rank_df out)"
proof -
  from scoped_analyse[OF s, of m] obtain ndf where
    e: "dashboard L df sel m =
           (case best_worst s m of Inl e \<Rightarrow> Inl e
            | Inr x \<Rightarrow>
                (case ranking L s m (metric_col x) (higher_is_better x) of Inl e \<Rightarrow> Inl e
                 | Inr r \<Rightarrow>
                     Inr \<lparr>best_row = best_row x, worst_row = worst_row x,
                          metric_col = metric_col x, higher_is_better = higher_is_better x,
                          rank_df = r, table = ndf\<rparr>))"
    by blast
  from d e obtain x :: extrema where x: "best_worst s m = Inr x"
    by (cases "best_worst s m") auto
  with d e obtain t where t: "ranking L s m (metric_col x) (higher_is_better x) = Inr t"
    by (cases "ranking L s m (metric_col x) (higher_is_better x)") auto
  from d e x t have "rank_df out = t" by auto
  with t best_worst_direction[OF x r] show ?thesis by simp
qed

lemma eurusd_dashboard: "\<not> isl (dashboard exact_lib eurusd (Str ''EURUSD'') ''% Filled Volume'')"
  by (simp add: eurusd_def frame_defs float_defs script_defs)

lemma eurusd_rows:
  "rows (projr (scoped exact_lib eurusd (Str ''EURUSD''))) =
     [rows (projr (scoped exact_lib eurusd (Str ''EURUSD''))) ! 0,
      rows (projr (scoped exact_lib eurusd (Str ''EURUSD''))) ! 1]"
  "present (rows (projr (scoped exact_lib eurusd (Str ''EURUSD''))) ! 0) =
     [(''LP Name'', Str ''LP_A''), (''% Filled Volume'', Flt (Fin (873 / 10))),
      (''Avg Fill Latency (ms)'', Flt (Fin 120)), (''Total Filled Volume'', Flt (Fin 10000))]"
  "present (rows (projr (scoped exact_lib eurusd (Str ''EURUSD''))) ! 1) =
     [(''LP Name'', Str ''LP_B''), (''% Filled Volume'', Flt (Fin (921 / 10))),
      (''Avg Fill Latency (ms)'', Flt (Fin 95)), (''Total Filled Volume'', Flt (Fin (17001 / 2)))]"
  by (simp_all add: eurusd_scoped present_def report_row_def cell_def)

section \<open>The check of the required columns\<close>

text \<open>
  C7. The check of the required columns returns exactly the required names that are not
  among the table's column names, compared as they are written. When none is missing the
  run goes on to the conversion; when some are, the run ends there with their list and
  converts nothing. A table that lacks only \<open>Avg. Fill Latency\<close> yields exactly that name.
\<close>

theorem missing_columns_exact:
  "(\<forall>c. c \<in> set (missing_columns df) \<longleftrightarrow> c \<in> set required_columns \<and> c \<notin> set (columns df))
   \<and> (missing_columns df = [] \<longrightarrow>
        dashboard L df selected_symbol selected_metric
          = analyse L df selected_symbol selected_metric)
   \<and> (missing_columns df \<noteq> [] \<longrightarrow>
        dashboard L df selected_symbol selected_metric
          = Inl (MissingColumns (missing_columns df)))
   \<and> (''Avg. Fill Latency'' \<notin> set (columns df)
        \<and> ''Core Symbol'' \<in> set (columns df) \<and> ''Maker Stream Name'' \<in> set (columns df)
        \<and> ''% Filled Volume'' \<in> set (columns df) \<and> ''Total Filled Volume'' \<in> set (columns df)
      \<longrightarrow> missing_columns df = [''Avg. Fill Latency''])"
proof (intro conjI)
  show "\<forall>c. c \<in> set (missing_columns df) \<longleftrightarrow> c \<in> set required_columns \<and> c \<notin> set (columns df)"
    by (simp add: missing_columns_def)
  show "missing_columns df = [] \<longrightarrow>
        dashboard L df selected_symbol selected_metric
          = analyse L df selected_symbol selected_metric"
    by (simp add: dashboard_def)
  show "missing_columns df \<noteq> [] \<longrightarrow>
        dashboard L df selected_symbol selected_metric
          = Inl (MissingColumns (missing_columns df))"
    by (simp add: dashboard_def)
  show "''Avg. Fill Latency'' \<notin> set (columns df)
        \<and> ''Core Symbol'' \<in> set (columns df) \<and> ''Maker Stream Name'' \<in> set (columns df)
        \<and> ''% Filled Volume'' \<in> set (columns df) \<and> ''Total Filled Volume'' \<in> set (columns df)
      \<longrightarrow> missing_columns df = [''Avg. Fill Latency'']"
    by (simp add: missing_columns_def required_columns_def)
qed

text \<open>
  On the mislabelled report the run stops with exactly the latency column listed, although
  a cell of it would not convert; on the two-row report nothing is missing.
\<close>

theorem missing_columns_exact_witness:
  "missing_columns mislabelled = [''Avg. Fill Latency'']
   \<and> dashboard exact_lib mislabelled (Str ''EURUSD'') ''% Filled Volume''
       = Inl (MissingColumns [''Avg. Fill Latency''])
   \<and> missing_columns eurusd = []
   \<and> dashboard exact_lib eurusd (Str ''EURUSD'') ''% Filled Volume''
       = analyse exact_lib eurusd (Str ''EURUSD'') ''% Filled Volume''"
  using missing_columns_exact[of mislabelled exact_lib "Str ''EURUSD''" "''% Filled Volume''"]
    missing_columns_exact[of eurusd exact_lib "Str ''EURUSD''" "''% Filled Volume''"]
  by (simp add: mislabelled_def eurusd_def report_def missing_columns_def required_columns_def)

section \<open>Cleaning rules\<close>

text \<open>
  C5. On a table with the required columns the conversion succeeds exactly when, in every
  row, \<open>float\<close> reads a number from each of the three cells after cleaning; the canonical
  value of a row then is that number. Cleaning a text removes every \<open>%\<close> character for the
  percentage, every \<open>ms\<close> for the latency, every \<open>$\<close> and \<open>,\<close> for the volume. So
  \<open>87.3%\<close> is read as the float nearest to 87.3, \<open>142.5ms\<close> as 142.5 and \<open>$12,345.67\<close>
  as 12345.67.
\<close>

theorem cleaning_rules:
  assumes "missing_columns df = []"
  shows "((\<exists>ndf. normalize L df = Inr ndf) \<longleftrightarrow>
            (\<forall>r\<in>set (rows df).
               py_float L (clean_pct (astype_str L (cell r ''% Filled Volume''))) \<noteq> None
             \<and> py_float L (clean_latency (astype_str L (cell r ''Avg. Fill Latency''))) \<noteq> None
             \<and> py_float L (clean_volume (astype_str L (cell r ''Total Filled Volume''))) \<noteq> None))
       \<and> (\<forall>ndf. normalize L df = Inr ndf \<longrightarrow>
            (\<forall>i<length (rows df).
               (\<exists>x. py_float L (clean_pct (astype_str L (cell (rows df ! i) ''% Filled Volume'')))
                       = Some x
                    \<and> cell (rows ndf ! i) ''Filled_Vol_Pct'' = Flt x)
             \<and> (\<exists>x. py_float L (clean_latency (astype_str L (cell (rows df ! i) ''Avg. Fill Latency'')))
                       = Some x
                    \<and> cell (rows ndf ! i) ''Avg_Latency_ms'' = Flt x)
             \<and> (\<exists>x. py_float L (clean_volume (astype_str L (cell (rows df ! i) ''Total Filled Volume'')))
                       = Some x
                    \<and> cell (rows ndf ! i) ''Total_Filled_Vol'' = Flt x)))
       \<and> (\<forall>s. astype_str L (Str s) = s
              \<and> clean_pct s = filter (\<lambda>c. c \<noteq> CHR ''%'') s
              \<and> clean_latency s = strip_ms s
              \<and> clean_volume s = filter (\<lambda>c. c \<noteq> CHR ''$'' \<and> c \<noteq> CHR '','') s)
       \<and> py_float L (clean_pct ''87.3%'') = Some (strtod L (873 / 10))
       \<and> py_float L (clean_latency ''142.5ms'') = Some (strtod L (1425 / 10))
       \<and> py_float L (clean_volume ''$12,345.67'') = Some (strtod L (1234567 / 100))"
proof (intro conjI)
  show "(\<exists>ndf. normalize L df = Inr ndf) \<longleftrightarrow>
            (\<forall>r\<in>set (rows df).
               py_float L (clean_pct (astype_str L (cell r ''% Filled Volume''))) \<noteq> None
             \<and> py_float L (clean_latency (astype_str L (cell r ''Avg. Fill Latency''))) \<noteq> None
             \<and> py_float L (clean_volume (astype_str L (cell r ''Total Filled Volume''))) \<noteq> None)"
  proof
    assume "\<exists>ndf. normalize L df = Inr ndf"
    then obtain ndf where n: "normalize L df = Inr ndf" by blast
    show "\<forall>r\<in>set (rows df).
               py_float L (clean_pct (astype_str L (cell r ''% Filled Volume''))) \<noteq> None
             \<and> py_float L (clean_latency (astype_str L (cell r ''Avg. Fill Latency''))) \<noteq> None
             \<and> py_float L (clean_volume (astype_str L (cell r ''Total Filled Volume''))) \<noteq> None"
    proof
      fix r assume r: "r \<in> set (rows df)"
      show "py_float L (clean_pct (astype_str L (cell r ''% Filled Volume''))) \<noteq> None
             \<and> py_float L (clean_latency (astype_str L (cell r ''Avg. Fill Latency''))) \<noteq> None
             \<and> py_float L (clean_volume (astype_str L (cell r ''Total Filled Volume''))) \<noteq> None"
        using normalize_fails[OF r, of L] n by (metis sum.distinct(1))
    qed
  next
    assume "\<forall>r\<in>set (rows df).
               py_float L (clean_pct (astype_str L (cell r ''% Filled Volume''))) \<noteq> None
             \<and> py_float L (clean_latency (astype_str L (cell r ''Avg. Fill Latency''))) \<noteq> None
             \<and> py_float L (clean_volume (astype_str L (cell r ''Total Filled Volume''))) \<noteq> None"
    from normalize_succeeds[OF assms this] show "\<exists>ndf. normalize L df = Inr ndf" .
  qed
next
  show "\<forall>ndf. normalize L df = Inr ndf \<longrightarrow>
            (\<forall>i<length (rows df).
               (\<exists>x. py_float L (clean_pct (astype_str L (cell (rows df ! i) ''% Filled Volume'')))
                       = Some x
                    \<and> cell (rows ndf ! i) ''Filled_Vol_Pct'' = Flt x)
             \<and> (\<exists>x. py_float L (clean_latency (astype_str L (cell (rows df ! i) ''Avg. Fill Latency'')))
                       = Some x
                    \<and> cell (rows ndf ! i) ''Avg_Latency_ms'' = Flt x)
             \<and> (\<exists>x. py_float L (clean_volume (astype_str L (cell (rows df ! i) ''Total Filled Volume'')))
                       = Some x
                    \<and> cell (rows ndf ! i) ''Total_Filled_Vol'' = Flt x))"
    using normalize_values by blast
next
  show "\<forall>s. astype_str L (Str s) = s
              \<and> clean_pct s = filter (\<lambda>c. c \<noteq> CHR ''%'') s
              \<and> clean_latency s = strip_ms s
              \<and> clean_volume s = filter (\<lambda>c. c \<noteq> CHR ''$'' \<and> c \<noteq> CHR '','') s"
    by (simp add: astype_str_def clean_pct_filter clean_latency_strip clean_volume_filter)
next
  show "py_float L (clean_pct ''87.3%'') = Some (strtod L (873 / 10))"
    by (simp add: clean_pct_def float_defs)
next
  show "py_float L (clean_latency ''142.5ms'') = Some (strtod L (1425 / 10))"
    by (simp add: clean_latency_def float_defs)
next
  show "py_float L (clean_volume ''$12,345.67'') = Some (strtod L (1234567 / 100))"
    by (simp add: clean_volume_def float_defs)
qed

text \<open>
  The report with the three display formats converts to 87.3, 142.5 and 12345.67; the report
  with \<open>abc%\<close> does not convert.
\<close>

theorem cleaning_rules_witness:
  "missing_columns formatted = []
   \<and> \<not> isl (normalize exact_lib formatted)
   \<and> 0 < length (rows formatted)
   \<and> cell (rows formatted ! 0) ''% Filled Volume'' = Str ''87.3%''
   \<and> cell (rows (projr (normalize exact_lib formatted)) ! 0) ''Filled_Vol_Pct''
       = Flt (Fin (873 / 10))
   \<and> cell (rows formatted ! 0) ''Avg. Fill Latency'' = Str ''142.5ms''
   \<and> cell (rows (projr (normalize exact_lib formatted)) ! 0) ''Avg_Latency_ms''
       = Flt (Fin (1425 / 10))
   \<and> cell (rows formatted ! 0) ''Total Filled Volume'' = Str ''$12,345.67''
   \<and> cell (rows (projr (normalize exact_lib formatted)) ! 0) ''Total_Filled_Vol''
       = Flt (Fin (1234567 / 100))
   \<and> missing_columns abc_pct = [] \<and> isl (normalize exact_lib abc_pct)"
proof -
  have m: "missing_columns formatted = []" "missing_columns abc_pct = []"
    by (simp_all add: formatted_def abc_pct_def report_def missing_columns_def)
  have i: "0 < length (rows formatted)" by (simp add: formatted_def report_def)
  have c: "cell (rows formatted ! 0) ''% Filled Volume'' = Str ''87.3%''"
    "cell (rows formatted ! 0) ''Avg. Fill Latency'' = Str ''142.5ms''"
    "cell (rows formatted ! 0) ''Total Filled Volume'' = Str ''$12,345.67''"
    by (simp_all add: formatted_def report_def report_row_def cell_def)
  have r: "rows formatted = [rows formatted ! 0]" by (simp add: formatted_def report_def)
  note R = cleaning_rules[OF m(1), of exact_lib]
  note B = cleaning_rules[OF m(2), of exact_lib]
  have s: "strtod exact_lib = Fin" by (simp add: exact_lib_def)
  have a: "astype_str exact_lib (Str t) = t" for t by (simp add: astype_str_def)
  have p: "py_float exact_lib (clean_pct (astype_str exact_lib (cell (rows formatted ! 0) ''% Filled Volume'')))
             = Some (Fin (873 / 10))"
    "py_float exact_lib (clean_latency (astype_str exact_lib (cell (rows formatted ! 0) ''Avg. Fill Latency'')))
             = Some (Fin (1425 / 10))"
    "py_float exact_lib (clean_volume (astype_str exact_lib (cell (rows formatted ! 0) ''Total Filled Volume'')))
             = Some (Fin (1234567 / 100))"
    using R[THEN conjunct2, THEN conjunct2, THEN conjunct2, THEN conjunct1]
      R[THEN conjunct2, THEN conjunct2, THEN conjunct2, THEN conjunct2, THEN conjunct1]
      R[THEN conjunct2, THEN conjunct2, THEN conjunct2, THEN conjunct2, THEN conjunct2]
    by (simp_all add: c a s)
  have "\<forall>r\<in>set (rows formatted).
               py_float exact_lib (clean_pct (astype_str exact_lib (cell r ''% Filled Volume''))) \<noteq> None
             \<and> py_float exact_lib (clean_latency (astype_str exact_lib (cell r ''Avg. Fill Latency''))) \<noteq> None
             \<and> py_float exact_lib (clean_volume (astype_str exact_lib (cell r ''Total Filled Volume''))) \<noteq> None"
    by (subst r) (simp add: p)
  with R[THEN conjunct1] obtain ndf where n: "normalize exact_lib formatted = Inr ndf" by blast
  with R[THEN conjunct2, THEN conjunct1] i have "(\<exists>x. py_float exact_lib (clean_pct (astype_str exact_lib (cell (rows formatted ! 0) ''% Filled Volume'')))
                       = Some x
                    \<and> cell (rows ndf ! 0) ''Filled_Vol_Pct'' = Flt x)
             \<and> (\<exists>x. py_float exact_lib (clean_latency (astype_str exact_lib (cell (rows formatted ! 0) ''Avg. Fill Latency'')))
                       = Some x
                    \<and> cell (rows ndf ! 0) ''Avg_Latency_ms'' = Flt x)
             \<and> (\<exists>x. py_float exact_lib (clean_volume (astype_str exact_lib (cell (rows formatted ! 0) ''Total Filled Volume'')))
                       = Some x
                    \<and> cell (rows ndf ! 0) ''Total_Filled_Vol'' = Flt x)"
    by blast
  with p have v: "cell (rows ndf ! 0) ''Filled_Vol_Pct'' = Flt (Fin (873 / 10))"
    "cell (rows ndf ! 0) ''Avg_Latency_ms'' = Flt (Fin (1425 / 10))"
    "cell (rows ndf ! 0) ''Total_Filled_Vol'' = Flt (Fin (1234567 / 100))"
    by simp_all
  have bad: "py_float exact_lib (clean_pct (astype_str exact_lib (cell (rows abc_pct ! 0) ''% Filled Volume''))) = None"
    by (simp add: abc_pct_def report_def report_row_def cell_def astype_str_def clean_pct_filter float_defs)
  have "rows abc_pct ! 0 \<in> set (rows abc_pct)" by (simp add: abc_pct_def report_def)
  with B[THEN conjunct1] bad have "\<not> (\<exists>ndf. normalize exact_lib abc_pct = Inr ndf)" by blast
  then have b: "isl (normalize exact_lib abc_pct)"
    by (cases "normalize exact_lib abc_pct") simp_all
  from m i c n v b show ?thesis by simp
qed

section \<open>Canonical values\<close>

text \<open>
  C2 does not hold as stated. An empty cell is read as NaN and \<open>inf%\<close> as infinity; no
  error is raised, and the run ranks with these values: the best row by percentage is the
  infinite one.
\<close>

theorem finite_values_counterexample:
  "\<not> isl (normalize exact_lib gaps)
   \<and> cell (rows (projr (normalize exact_lib gaps)) ! 0) ''Filled_Vol_Pct'' = Flt NaN
   \<and> cell (rows (projr (normalize exact_lib gaps)) ! 1) ''Filled_Vol_Pct'' = Flt PInf
   \<and> \<not> isfinite NaN \<and> \<not> isfinite PInf
   \<and> \<not> isl (dashboard exact_lib gaps (Str ''EURUSD'') ''% Filled Volume'')
   \<and> cell (best_row (projr (dashboard exact_lib gaps (Str ''EURUSD'') ''% Filled Volume'')))
        ''Filled_Vol_Pct'' = Flt PInf"
  by (simp add: gaps_def frame_defs float_defs isfinite_def script_defs)

text \<open>
  C2, amended. For a table with the required columns, either the conversion succeeds, keeps
  the number of rows and leaves a float (finite, infinite or NaN) in each of the three
  canonical columns of every row; or it raises the ValueError of \<open>float\<close> for a cleaned
  text that is no number, and the run ends with that error.
\<close>

theorem canonical_values:
  assumes "missing_columns df = []"
  shows "(\<exists>ndf. normalize L df = Inr ndf \<and> length (rows ndf) = length (rows df)
            \<and> (\<forall>i<length (rows ndf). \<exists>x y z.
                  cell (rows ndf ! i) ''Filled_Vol_Pct'' = Flt x
                  \<and> cell (rows ndf ! i) ''Avg_Latency_ms'' = Flt y
                  \<and> cell (rows ndf ! i) ''Total_Filled_Vol'' = Flt z))
         \<or> (\<exists>s. normalize L df = Inl (CouldNotConvert s) \<and> py_float L s = None
                \<and> dashboard L df selected_symbol selected_metric = Inl (CouldNotConvert s))"
proof (cases "normalize L df")
  case (Inl e)
  from normalize_Inl[OF Inl assms] obtain s where s: "e = CouldNotConvert s" "py_float L s = None"
    by blast
  have "dashboard L df selected_symbol selected_metric = Inl e"
    using Inl assms by (simp add: dashboard_def analyse_def)
  with s Inl show ?thesis by blast
next
  case (Inr ndf)
  have len: "length (rows ndf) = length (rows df)" by (rule normalize_length[OF Inr])
  have "\<exists>x y z. cell (rows ndf ! i) ''Filled_Vol_Pct'' = Flt x
                  \<and> cell (rows ndf ! i) ''Avg_Latency_ms'' = Flt y
                  \<and> cell (rows ndf ! i) ''Total_Filled_Vol'' = Flt z"
    if "i < length (rows ndf)" for i
  proof -
    from that len have i: "i < length (rows df)" by simp
    from normalize_values[OF Inr i] show ?thesis by blast
  qed
  with Inr len show ?thesis by blast
qed

text \<open>Both cases occur: the report with gaps converts, the one with \<open>abcms\<close> fails.\<close>

theorem canonical_values_witness:
  "missing_columns gaps = []
   \<and> \<not> isl (normalize exact_lib gaps)
   \<and> cell (rows (projr (normalize exact_lib gaps)) ! 0) ''Avg_Latency_ms'' = Flt (Fin 120)
   \<and> missing_columns abc_latency = []
   \<and> normalize exact_lib abc_latency = Inl (CouldNotConvert ''abc'')
   \<and> dashboard exact_lib abc_latency (Str ''EURUSD'') ''% Filled Volume''
        = Inl (CouldNotConvert ''abc'')"
proof -
  have m: "missing_columns gaps = []" "missing_columns abc_latency = []"
    by (simp_all add: gaps_def abc_latency_def report_def missing_columns_def)
  have n: "normalize exact_lib abc_latency = Inl (CouldNotConvert ''abc'')"
    by (simp add: abc_latency_def frame_defs float_defs)
  have g: "\<not> isl (normalize exact_lib gaps)"
    "cell (rows (projr (normalize exact_lib gaps)) ! 0) ''Avg_Latency_ms'' = Flt (Fin 120)"
    by (simp_all add: gaps_def frame_defs float_defs)
  from canonical_values[OF m(2), of exact_lib "Str ''EURUSD''" "''% Filled Volume''"] n
  have "dashboard exact_lib abc_latency (Str ''EURUSD'') ''% Filled Volume''
        = Inl (CouldNotConvert ''abc'')"
    by auto
  with canonical_values[OF m(1), of exact_lib "Str ''EURUSD''" "''% Filled Volume''"] m n g
  show ?thesis by simp
qed

section \<open>Cells that are no numbers\<close>

text \<open>
  C6 does not hold as stated. The error carries the cleaned text \<open>abc\<close>, not the cell
  \<open>abc%\<close>, and it names no column: \<open>abcms\<close> in the latency column gives the same error.
\<close>

theorem conversion_error_counterexample:
  "dashboard exact_lib abc_pct (Str ''EURUSD'') ''% Filled Volume'' = Inl (CouldNotConvert ''abc'')
   \<and> cell (rows abc_pct ! 0) ''% Filled Volume'' = Str ''abc%''
   \<and> dashboard exact_lib abc_latency (Str ''EURUSD'') ''% Filled Volume''
       = Inl (CouldNotConvert ''abc'')
   \<and> cell (rows abc_latency ! 0) ''Avg. Fill Latency'' = Str ''abcms''"
  by (simp add: abc_pct_def abc_latency_def dashboard_def analyse_def missing_columns_def
      frame_defs float_defs)

text \<open>
  C6, amended. If, in a table with the required columns, the cleaned text of some cell of
  the three numeric columns is no number, the run ends with the ValueError of \<open>float\<close>;
  the error carries the cleaned text of such a cell, and there is no result.
\<close>

theorem malformed_cell_is_fatal:
  assumes "missing_columns df = []" and "r \<in> set (rows df)"
    and "py_float L (clean_pct (astype_str L (cell r ''% Filled Volume''))) = None
         \<or> py_float L (clean_latency (astype_str L (cell r ''Avg. Fill Latency''))) = None
         \<or> py_float L (clean_volume (astype_str L (cell r ''Total Filled Volume''))) = None"
  shows "\<exists>r'\<in>set (rows df). \<exists>s.
           dashboard L df selected_symbol selected_metric = Inl (CouldNotConvert s)
           \<and> py_float L s = None
           \<and> (s = clean_pct (astype_str L (cell r' ''% Filled Volume''))
              \<or> s = clean_latency (astype_str L (cell r' ''Avg. Fill Latency''))
              \<or> s = clean_volume (astype_str L (cell r' ''Total Filled Volume'')))"
proof -
  from normalize_fails[OF assms(2,3)] obtain e where e: "normalize L df = Inl e" by blast
  have d: "dashboard L df selected_symbol selected_metric = Inl e"
    using e assms(1) by (simp add: dashboard_def analyse_def)
  from normalize_Inl[OF e assms(1)] d show ?thesis by auto
qed

text \<open>The report with \<open>abc%\<close> fails whatever the metric.\<close>

theorem malformed_cell_is_fatal_witness:
  "missing_columns abc_pct = []
   \<and> report_row (Str ''EURUSD'') (Str ''LP_A'') (Str ''abc%'') (Str ''120ms'') (Str ''$10,000.00'')
       \<in> set (rows abc_pct)
   \<and> py_float exact_lib (clean_pct (astype_str exact_lib (cell
        (report_row (Str ''EURUSD'') (Str ''LP_A'') (Str ''abc%'') (Str ''120ms'')
           (Str ''$10,000.00'')) ''% Filled Volume''))) = None
   \<and> isl (dashboard exact_lib abc_pct (Str ''EURUSD'') ''Total Filled Volume'')"
proof -
  have m: "missing_columns abc_pct = []"
    by (simp add: abc_pct_def report_def missing_columns_def)
  have r: "report_row (Str ''EURUSD'') (Str ''LP_A'') (Str ''abc%'') (Str ''120ms'')
             (Str ''$10,000.00'') \<in> set (rows abc_pct)"
    by (simp add: abc_pct_def report_def)
  have p: "py_float exact_lib (clean_pct (astype_str exact_lib (cell
        (report_row (Str ''EURUSD'') (Str ''LP_A'') (Str ''abc%'') (Str ''120ms'')
           (Str ''$10,000.00'')) ''% Filled Volume''))) = None"
    by (simp add: report_row_def cell_def astype_str_def clean_pct_def float_defs)
  from malformed_cell_is_fatal[OF m r, of exact_lib "Str ''EURUSD''" "''Total Filled Volume''"] p
  have "isl (dashboard exact_lib abc_pct (Str ''EURUSD'') ''Total Filled Volume'')"
    by auto
  with m r p show ?thesis by simp
qed

section \<open>What the conversion leaves alone\<close>

text \<open>
  C10 does not hold as stated. A column of the input that is named like a canonical column
  is overwritten: the cell \<open>keep\<close> becomes 87.3.
\<close>

theorem original_columns_counterexample:
  "missing_columns shadowed = []
   \<and> \<not> isl (normalize exact_lib shadowed)
   \<and> cell (rows shadowed ! 0) ''Filled_Vol_Pct'' = Str ''keep''
   \<and> cell (rows (projr (normalize exact_lib shadowed)) ! 0) ''Filled_Vol_Pct''
       = Flt (Fin (873 / 10))"
  by (simp add: shadowed_def missing_columns_def frame_defs float_defs)

text \<open>
  C10, amended. The conversion keeps the rows in number and order and the columns of the
  input in their places, adds the three canonical columns where they are not there
  already, and leaves every cell of every column not named like a canonical one as it was,
  the five required columns among them. The table at the end of a run is the converted
  table: best and worst and the ranking change nothing in it.
\<close>

theorem normalization_frame:
  assumes "normalize L df = Inr ndf"
  shows "length (rows ndf) = length (rows df)
       \<and> prefix (columns df) (columns ndf)
       \<and> set (columns ndf)
           = set (columns df) \<union> {''Filled_Vol_Pct'', ''Avg_Latency_ms'', ''Total_Filled_Vol''}
       \<and> (\<forall>c. c \<notin> {''Filled_Vol_Pct'', ''Avg_Latency_ms'', ''Total_Filled_Vol''} \<longrightarrow>
             map (\<lambda>r. cell r c) (rows ndf) = map (\<lambda>r. cell r c) (rows df))
       \<and> (\<forall>c\<in>set required_columns.
             map (\<lambda>r. cell r c) (rows ndf) = map (\<lambda>r. cell r c) (rows df))
       \<and> (\<forall>out. analyse L df selected_symbol selected_metric = Inr out \<longrightarrow> table out = ndf)"
proof -
  have len: "length (rows ndf) = length (rows df)" by (rule normalize_length[OF assms])
  have same: "map (\<lambda>r. cell r c) (rows ndf) = map (\<lambda>r. cell r c) (rows df)"
    if "c \<noteq> ''Filled_Vol_Pct''" "c \<noteq> ''Avg_Latency_ms''" "c \<noteq> ''Total_Filled_Vol''" for c
    using len normalize_frame[OF assms _ that] by (auto intro: nth_equalityI)
  have req: "\<forall>c\<in>set required_columns.
             map (\<lambda>r. cell r c) (rows ndf) = map (\<lambda>r. cell r c) (rows df)"
    using same by (simp add: required_columns_def)
  have tab: "\<forall>out. analyse L df selected_symbol selected_metric = Inr out \<longrightarrow> table out = ndf"
    using analyse_table assms by fastforce
  from len normalize_prefix[OF assms] normalize_columns[OF assms] same req tab
  show ?thesis by simp
qed

text \<open>On the report with the shadowed column and on the two-row report.\<close>

theorem normalization_frame_witness:
  "\<not> isl (normalize exact_lib shadowed)
   \<and> length (rows (projr (normalize exact_lib shadowed))) = length (rows shadowed)
   \<and> map (\<lambda>r. cell r ''% Filled Volume'') (rows (projr (normalize exact_lib shadowed)))
       = [Str ''87.3%'']
   \<and> \<not> isl (analyse exact_lib eurusd (Str ''EURUSD'') ''% Filled Volume'')
   \<and> table (projr (analyse exact_lib eurusd (Str ''EURUSD'') ''% Filled Volume''))
       = projr (normalize exact_lib eurusd)"
proof -
  have s: "\<not> isl (normalize exact_lib shadowed)"
    by (simp add: shadowed_def frame_defs float_defs)
  then have n: "normalize exact_lib shadowed = Inr (projr (normalize exact_lib shadowed))"
    by (cases "normalize exact_lib shadowed") simp_all
  have e: "normalize exact_lib eurusd = Inr (projr (normalize exact_lib eurusd))"
    using eurusd_normalized by (cases "normalize exact_lib eurusd") simp_all
  have a: "\<not> isl (analyse exact_lib eurusd (Str ''EURUSD'') ''% Filled Volume'')"
    by (simp add: eurusd_def frame_defs float_defs script_defs)
  then have a': "analyse exact_lib eurusd (Str ''EURUSD'') ''% Filled Volume''
      = Inr (projr (analyse exact_lib eurusd (Str ''EURUSD'') ''% Filled Volume''))"
    by (cases "analyse exact_lib eurusd (Str ''EURUSD'') ''% Filled Volume''") simp_all
  have c: "map (\<lambda>r. cell r ''% Filled Volume'') (rows shadowed) = [Str ''87.3%'']"
    by (simp add: shadowed_def report_row_def cell_def)
  from normalization_frame[OF n, of "Str ''EURUSD''" "''% Filled Volume''"]
    normalization_frame[OF e, of "Str ''EURUSD''" "''% Filled Volume''"] s a a' c
  show ?thesis by (simp add: required_columns_def)
qed

section \<open>Best and worst row\<close>




section \<open>The empty subset\<close>




section \<open>The ranking table\<close>

text \<open>
  C4. Provided numpy's \<open>argsort\<close> returns the positions in ascending order of the keys,
  the ranking table of a subset and a metric has the four columns \<open>LP Name\<close>,
  \<open>% Filled Volume\<close>, \<open>Avg Fill Latency (ms)\<close> and \<open>Total Filled Volume\<close>; its rows are
  the rows of the subset, each with its stream name and its three canonical values under
  these labels; and they are sorted by the canonical value of the metric, descending when
  higher is better and ascending when lower is better: no row has a strictly more
  favourable value than a row before it. Rows whose value is NaN come last. This table is
  the one that a run of the script shows.
\<close>

theorem ranking_table:
  assumes s: "scoped L df selected_symbol = Inr sym_df"
    and r: "resolve selected_metric = Some (c, hib)"
    and ok: "argsort_ok (argsort L)"
  shows "\<exists>t. ranking L sym_df selected_metric c hib = Inr t
     \<and> columns t = [''LP Name'', ''% Filled Volume'', ''Avg Fill Latency (ms)'',
                    ''Total Filled Volume'']
     \<and> mset (rows t) = mset (map present (rows sym_df))
     \<and> sorted_wrt (\<lambda>a b. \<not> more_favourable hib (cell b selected_metric) (cell a selected_metric))
          (rows t)
     \<and> (\<exists>A B. rows t = A @ B \<and> (\<forall>a\<in>set A. cell a selected_metric \<noteq> Flt NaN)
                \<and> (\<forall>b\<in>set B. cell b selected_metric = Flt NaN))
     \<and> (\<forall>out. dashboard L df selected_symbol selected_metric = Inr out \<longrightarrow> rank_df out = t)"
proof -
  note src = scoped_rank_source[OF s]
  note cf = scoped_canonical[OF s r]
  define items where "items = map (\<lambda>r. cell r c) (rows sym_df)"
  define P where "P = map present (rows sym_df)"
  define idx where "idx = nargsort L items (\<not> hib)"
  define t where "t = \<lparr>columns = [''LP Name'', ''% Filled Volume'', ''Avg Fill Latency (ms)'',
                           ''Total Filled Volume''], rows = map ((!) P) idx\<rparr>"
  have rk: "ranking L sym_df selected_metric c hib = Inr t"
    by (simp add: ranking_eq[OF src r] t_def P_def idx_def items_def)
  have len: "length items = length P" by (simp add: items_def P_def)
  have cols: "columns t = [''LP Name'', ''% Filled Volume'', ''Avg Fill Latency (ms)'',
                    ''Total Filled Volume'']"
    by (simp add: t_def)
  have rws: "rows t = map ((!) P) idx" by (simp add: t_def)
  have perm: "mset (rows t) = mset (map present (rows sym_df))"
    using sort_rows_perm[OF ok len, of "\<not> hib"] by (simp add: rws idx_def P_def)
  have rng: "\<forall>i\<in>set idx. i < length items"
    unfolding idx_def by (rule nargsort_in_range[OF ok])
  have key: "cell (P ! i) selected_metric = items ! i" if "i < length items" for i
    using that by (simp add: P_def items_def present_cell[OF r])
  have fl: "\<forall>v\<in>set items. \<exists>x. v = Flt x" using cf(2) by (auto simp: items_def)
  have srt: "sorted_wrt (\<lambda>a b. \<not> more_favourable hib (cell b selected_metric) (cell a selected_metric))
          (rows t)"
  proof -
    have "sorted_wrt (\<lambda>i j. \<not> more_favourable hib (cell (P ! j) selected_metric)
                              (cell (P ! i) selected_metric)) idx"
    proof (rule sorted_wrt_mono_rel[OF _ nargsort_sorted[OF ok fl, of "\<not> hib", folded idx_def]])
      fix i j assume "i \<in> set idx" "j \<in> set idx"
        and "if \<not> hib then \<not> vlt (items ! j) (items ! i) else \<not> vlt (items ! i) (items ! j)"
      then show "\<not> more_favourable hib (cell (P ! j) selected_metric) (cell (P ! i) selected_metric)"
        using rng by (auto simp: key more_favourable_def split: if_splits)
    qed
    then show ?thesis by (simp add: rws sorted_wrt_map)
  qed
  have last: "\<exists>A B. rows t = A @ B \<and> (\<forall>a\<in>set A. cell a selected_metric \<noteq> Flt NaN)
                \<and> (\<forall>b\<in>set B. cell b selected_metric = Flt NaN)"
  proof -
    from nargsort_nan_last[OF ok, of items "\<not> hib"] obtain A' where
      A': "idx = A' @ filter (\<lambda>i. isna (items ! i)) [0..<length items]"
      "mset A' = mset (filter (\<lambda>i. \<not> isna (items ! i)) [0..<length items])"
      by (auto simp: idx_def)
    from A'(2) have sA: "set A' = set (filter (\<lambda>i. \<not> isna (items ! i)) [0..<length items])"
      by (rule mset_eq_setD)
    let ?A = "map ((!) P) A'"
    let ?B = "map ((!) P) (filter (\<lambda>i. isna (items ! i)) [0..<length items])"
    have "rows t = ?A @ ?B" by (simp add: rws A'(1))
    moreover have "\<forall>a\<in>set ?A. cell a selected_metric \<noteq> Flt NaN"
      using sA by (auto simp: key isna_def)
    moreover have "\<forall>b\<in>set ?B. cell b selected_metric = Flt NaN"
      by (auto simp: key isna_def)
    ultimately show ?thesis by blast
  qed
  have dash: "\<forall>out. dashboard L df selected_symbol selected_metric = Inr out \<longrightarrow> rank_df out = t"
    using dashboard_rank_df[OF s r] rk by auto
  from rk cols perm srt last dash show ?thesis by blast
qed

text \<open>
  The two-row report ranked by percentage: LP_B with 92.1, then LP_A with 87.3.
\<close>

theorem ranking_table_witness:
  "\<not> isl (scoped exact_lib eurusd (Str ''EURUSD''))
   \<and> resolve ''% Filled Volume'' = Some (''Filled_Vol_Pct'', True)
   \<and> argsort_ok (argsort exact_lib)
   \<and> \<not> isl (dashboard exact_lib eurusd (Str ''EURUSD'') ''% Filled Volume'')
   \<and> columns (rank_df (projr (dashboard exact_lib eurusd (Str ''EURUSD'') ''% Filled Volume'')))
       = [''LP Name'', ''% Filled Volume'', ''Avg Fill Latency (ms)'', ''Total Filled Volume'']
   \<and> rows (rank_df (projr (dashboard exact_lib eurusd (Str ''EURUSD'') ''% Filled Volume'')))
       = [[(''LP Name'', Str ''LP_B''), (''% Filled Volume'', Flt (Fin (921 / 10))),
           (''Avg Fill Latency (ms)'', Flt (Fin 95)),
           (''Total Filled Volume'', Flt (Fin (17001 / 2)))],
          [(''LP Name'', Str ''LP_A''), (''% Filled Volume'', Flt (Fin (873 / 10))),
           (''Avg Fill Latency (ms)'', Flt (Fin 120)),
           (''Total Filled Volume'', Flt (Fin 10000))]]"
proof -
  define S where "S = projr (scoped exact_lib eurusd (Str ''EURUSD''))"
  define out where "out = projr (dashboard exact_lib eurusd (Str ''EURUSD'') ''% Filled Volume'')"
  have s: "scoped exact_lib eurusd (Str ''EURUSD'') = Inr S"
    by (simp add: S_def eurusd_scoped)
  have r: "resolve ''% Filled Volume'' = Some (''Filled_Vol_Pct'', True)"
    by (simp add: resolve_def)
  have d: "dashboard exact_lib eurusd (Str ''EURUSD'') ''% Filled Volume'' = Inr out"
    using eurusd_dashboard
    by (cases "dashboard exact_lib eurusd (Str ''EURUSD'') ''% Filled Volume''")
      (simp_all add: out_def)
  from ranking_table[OF s r exact_lib_ok] d obtain t where
    t: "ranking exact_lib S ''% Filled Volume'' ''Filled_Vol_Pct'' True = Inr t"
    "columns t = [''LP Name'', ''% Filled Volume'', ''Avg Fill Latency (ms)'', ''Total Filled Volume'']"
    "rank_df out = t"
    by auto
  have rw: "rows S = [rows S ! 0, rows S ! 1]"
    unfolding S_def by (rule eurusd_rows(1))
  have k: "map (\<lambda>r. cell r ''Filled_Vol_Pct'') (rows S) = [Flt (Fin (873 / 10)), Flt (Fin (921 / 10))]"
    by (simp add: S_def eurusd_scoped report_row_def cell_def)
  have n: "nargsort exact_lib [Flt (Fin (873 / 10)), Flt (Fin (921 / 10))] False = [1, 0]"
    by (simp add: nargsort_def exact_lib_def insertion_argsort_def isna_def Let_def)
  have "ranking exact_lib S ''% Filled Volume'' ''Filled_Vol_Pct'' True =
          Inr \<lparr>columns = [''LP Name'', ''% Filled Volume'', ''Avg Fill Latency (ms)'',
                           ''Total Filled Volume''],
               rows = map ((!) (map present (rows S))) [1, 0]\<rparr>"
    by (simp add: ranking_eq[OF scoped_rank_source[OF s] r] k n)
  with t(1) have "rows t = map ((!) (map present (rows S))) [1, 0]" by auto
  also have "\<dots> = [present (rows S ! 1), present (rows S ! 0)]"
    by (subst (1 2) rw) simp
  finally have rt: "rows t = [present (rows S ! 1), present (rows S ! 0)]" .
  have rt': "rows t =
        [[(''LP Name'', Str ''LP_B''), (''% Filled Volume'', Flt (Fin (921 / 10))),
           (''Avg Fill Latency (ms)'', Flt (Fin 95)),
           (''Total Filled Volume'', Flt (Fin (17001 / 2)))],
          [(''LP Name'', Str ''LP_A''), (''% Filled Volume'', Flt (Fin (873 / 10))),
           (''Avg Fill Latency (ms)'', Flt (Fin 120)),
           (''Total Filled Volume'', Flt (Fin 10000))]]"
    using rt by (simp only: S_def eurusd_rows(2,3))
  have i: "\<not> isl (scoped exact_lib eurusd (Str ''EURUSD''))" by (simp add: eurusd_scoped)
  from t(2,3) rt' have "columns (rank_df out) =
        [''LP Name'', ''% Filled Volume'', ''Avg Fill Latency (ms)'', ''Total Filled Volume'']"
    "rows (rank_df out) =
        [[(''LP Name'', Str ''LP_B''), (''% Filled Volume'', Flt (Fin (921 / 10))),
           (''Avg Fill Latency (ms)'', Flt (Fin 95)),
           (''Total Filled Volume'', Flt (Fin (17001 / 2)))],
          [(''LP Name'', Str ''LP_A''), (''% Filled Volume'', Flt (Fin (873 / 10))),
           (''Avg Fill Latency (ms)'', Flt (Fin 120)),
           (''Total Filled Volume'', Flt (Fin 10000))]]"
    by simp_all
  with i r exact_lib_ok eurusd_dashboard show ?thesis
    unfolding out_def by (intro conjI)
qed

section \<open>The sort key\<close>

text \<open>
  C9. For each of the three metric labels, the label is a column of the renamed table, so
  the key that the script looks up there is the label itself and the fallback to
  \<open>metric_col\<close> is never taken (the result does not depend on it); the label is the new
  name of the canonical column that the resolver gives; and sorting the renamed table by
  the label gives the same ranking as sorting the subset by the resolver's canonical
  column and direction, then projecting and renaming.
\<close>

theorem sort_key_agrees:
  assumes s: "scoped L df selected_symbol = Inr sym_df"
    and r: "resolve selected_metric = Some (c, hib)"
    and ok: "argsort_ok (argsort L)"
  shows "selected_metric \<in> set (columns (rename rank_names (projr (project sym_df rank_source))))
       \<and> sort_key (columns (rename rank_names (projr (project sym_df rank_source))))
            selected_metric mcol = selected_metric
       \<and> rename_label rank_names c = selected_metric
       \<and> \<not> isl (ranking L sym_df selected_metric mcol hib)
       \<and> ranking L sym_df selected_metric mcol hib = ranking_by_resolver L sym_df selected_metric"
proof -
  note src = scoped_rank_source[OF s]
  note cf = scoped_canonical[OF s r]
  from ranked_frame[OF src] obtain p where p: "project sym_df rank_source = Inr p"
    "rename rank_names p =
               \<lparr>columns = [''LP Name'', ''% Filled Volume'', ''Avg Fill Latency (ms)'',
                           ''Total Filled Volume''],
                rows = map present (rows sym_df)\<rparr>"
    by blast
  have cols: "columns (rename rank_names (projr (project sym_df rank_source))) =
      [''LP Name'', ''% Filled Volume'', ''Avg Fill Latency (ms)'', ''Total Filled Volume'']"
    by (simp add: p)
  have 1: "selected_metric \<in> set (columns (rename rank_names (projr (project sym_df rank_source))))"
    unfolding cols by (rule sort_key_label(1)[OF r])
  have 2: "sort_key (columns (rename rank_names (projr (project sym_df rank_source))))
            selected_metric mcol = selected_metric"
    unfolding cols by (rule sort_key_label(2)[OF r])
  have 3: "rename_label rank_names c = selected_metric"
    using resolve_cases[OF r] by (auto simp: rename_label_def rank_names_def)
  define items where "items = map (\<lambda>r. cell r c) (rows sym_df)"
  have "\<forall>i\<in>set (nargsort L items (\<not> hib)). i < length (rows sym_df)"
    using nargsort_in_range[OF ok, of items "\<not> hib"] by (simp add: items_def)
  from map_nth_map[OF this, of present]
  have 5: "ranking L sym_df selected_metric mcol hib = ranking_by_resolver L sym_df selected_metric"
    by (simp add: ranking_eq[OF src r] ranking_by_resolver_eq[OF src r cf(1)] items_def)
  have 4: "\<not> isl (ranking L sym_df selected_metric mcol hib)"
    by (simp add: ranking_eq[OF src r])
  from 1 2 3 4 5 show ?thesis by blast
qed

text \<open>
  The two-row report and the latency, with a fallback column that does not exist.
\<close>

theorem sort_key_agrees_witness:
  "\<not> isl (scoped exact_lib eurusd (Str ''EURUSD''))
   \<and> resolve ''Avg Fill Latency (ms)'' = Some (''Avg_Latency_ms'', False)
   \<and> argsort_ok (argsort exact_lib)
   \<and> sort_key (columns (rename rank_names
         (projr (project (projr (scoped exact_lib eurusd (Str ''EURUSD''))) rank_source))))
        ''Avg Fill Latency (ms)'' ''no such column'' = ''Avg Fill Latency (ms)''
   \<and> \<not> isl (ranking exact_lib (projr (scoped exact_lib eurusd (Str ''EURUSD'')))
         ''Avg Fill Latency (ms)'' ''no such column'' False)
   \<and> ranking exact_lib (projr (scoped exact_lib eurusd (Str ''EURUSD'')))
        ''Avg Fill Latency (ms)'' ''no such column'' False
      = ranking_by_resolver exact_lib (projr (scoped exact_lib eurusd (Str ''EURUSD'')))
          ''Avg Fill Latency (ms)''"
proof -
  have s: "scoped exact_lib eurusd (Str ''EURUSD'')
             = Inr (projr (scoped exact_lib eurusd (Str ''EURUSD'')))"
    by (simp add: eurusd_scoped)
  have i: "\<not> isl (scoped exact_lib eurusd (Str ''EURUSD''))" by (simp add: eurusd_scoped)
  have r: "resolve ''Avg Fill Latency (ms)'' = Some (''Avg_Latency_ms'', False)"
    by (simp add: resolve_def)
  from sort_key_agrees[OF s r exact_lib_ok, of "''no such column''"] i r exact_lib_ok
  show ?thesis by blast
qed

end
